theory Spec2Isabelle
  imports Complex_Main
begin

section \<open>Numbers, errors and arrays\<close>

text \<open>
  Python and numpy floats are read as the real numbers they denote: rounding, infinities
  and NaN are outside the model, and every place where the source would produce a NaN or
  raise is an explicit branch.  The exceptions of the source are values of \<open>error\<close>.
\<close>

datatype error =
    ValueError string
  | IndexError
  | TypeError string
  | AxisError
  | ZeroDivisionError
  | AttributeError
  | ExternalError string

text \<open>
  A two-dimensional \<open>numpy.ndarray\<close> of floats: its shape and its entries.  Only the
  entries inside the shape are ever read.
\<close>

record ndarray2 =
  nrows :: nat
  ncols :: nat
  at2 :: "nat \<Rightarrow> nat \<Rightarrow> real"

definition getitem2 :: "ndarray2 \<Rightarrow> nat \<Rightarrow> nat \<Rightarrow> error + real" where
  "getitem2 a i j = (if i < nrows a \<and> j < ncols a then Inr (at2 a i j) else Inl IndexError)"

definition array_sum :: "ndarray2 \<Rightarrow> real" where
  "array_sum a = sum_list (map (\<lambda>i. sum_list (map (\<lambda>j. at2 a i j) [0..<ncols a])) [0..<nrows a])"

text \<open>numpy broadcasting of two 2-D operands: an axis of length 1 is stretched.\<close>

definition broadcast_dim :: "nat \<Rightarrow> nat \<Rightarrow> nat option" where
  "broadcast_dim m n =
     (if m = n then Some m else if m = 1 then Some n else if n = 1 then Some m else None)"

definition bget :: "ndarray2 \<Rightarrow> nat \<Rightarrow> nat \<Rightarrow> real" where
  "bget a i j = at2 a (if nrows a = 1 then 0 else i) (if ncols a = 1 then 0 else j)"

definition array_mul :: "ndarray2 \<Rightarrow> ndarray2 \<Rightarrow> error + ndarray2" where
  "array_mul a b =
     (case (broadcast_dim (nrows a) (nrows b), broadcast_dim (ncols a) (ncols b)) of
        (Some r, Some c) \<Rightarrow>
          Inr \<lparr>nrows = r, ncols = c, at2 = (\<lambda>i j. bget a i j * bget b i j)\<rparr>
      | _ \<Rightarrow> Inl (ValueError ''operands could not be broadcast together''))"

text \<open>\<open>meshgrid(x, y)\<close> with the default \<open>xy\<close> indexing: both results have shape
  \<open>(len y, len x)\<close>.\<close>

definition meshgrid :: "real list \<Rightarrow> real list \<Rightarrow> ndarray2 \<times> ndarray2" where
  "meshgrid xs ys =
     (\<lparr>nrows = length ys, ncols = length xs, at2 = (\<lambda>i j. xs ! j)\<rparr>,
      \<lparr>nrows = length ys, ncols = length xs, at2 = (\<lambda>i j. ys ! i)\<rparr>)"

text \<open>
  The Bessel functions of the first kind behind \<open>scipy.special.j0\<close> and
  \<open>scipy.special.j1\<close>, by their power series.
\<close>

definition special_j0 :: "real \<Rightarrow> real" where
  "special_j0 x = (\<Sum>m. (- 1) ^ m / (fact m * fact m) * (x / 2) ^ (2 * m))"

definition special_j1 :: "real \<Rightarrow> real" where
  "special_j1 x = (\<Sum>m. (- 1) ^ m / (fact m * fact (Suc m)) * (x / 2) ^ (2 * m + 1))"

section \<open>psf.py: the point spread function and its encircled energy\<close>

record mtf =
  mtf_data :: ndarray2
  mtf_x :: "real list"
  mtf_y :: "real list"

text \<open>
  A \<open>PSF\<close> object.  \<open>psf_ee\<close> is the dictionary \<open>_ee\<close> in insertion order (the order
  \<open>keys()\<close> and \<open>values()\<close> list it in); the four lazily built attributes start as
  \<open>None\<close>.  The attributes \<open>fno\<close> and \<open>wavelength\<close> exist only once \<open>from_pupil\<close> has
  set them: an absent attribute is \<open>None\<close> here and reading it is an \<open>AttributeError\<close>.
\<close>

record psf =
  psf_x :: "real list"
  psf_y :: "real list"
  psf_data :: ndarray2
  psf_ee :: "(real \<times> real) list"
  psf_mtf :: "mtf option"
  psf_nu_p :: "ndarray2 option"
  psf_dnx :: "real option"
  psf_dny :: "real option"
  psf_fno :: "real option"
  psf_wavelength :: "real option"

definition PSF_init :: "real list \<Rightarrow> real list \<Rightarrow> ndarray2 \<Rightarrow> psf" where
  "PSF_init x y d =
     \<lparr>psf_x = x, psf_y = y, psf_data = d, psf_ee = [], psf_mtf = None,
      psf_nu_p = None, psf_dnx = None, psf_dny = None,
      psf_fno = None, psf_wavelength = None\<rparr>"

text \<open>\<open>_encircled_energy_core\<close>, lines 421 to 423.  An attribute that is still \<open>None\<close>
  makes the arithmetic raise \<open>TypeError\<close>.\<close>

definition integration_fourier :: "real \<Rightarrow> ndarray2 \<Rightarrow> ndarray2" where
  "integration_fourier radius nu =
     \<lparr>nrows = nrows nu, ncols = ncols nu,
      at2 = (\<lambda>i j. special_j1 (2 * pi * radius * at2 nu i j) / at2 nu i j)\<rparr>"

definition encircled_energy_core ::
  "ndarray2 \<Rightarrow> real \<Rightarrow> ndarray2 option \<Rightarrow> real option \<Rightarrow> real option \<Rightarrow> error + real" where
  "encircled_energy_core data radius nu_p dx dy =
     (case nu_p of
        None \<Rightarrow> Inl (TypeError ''unsupported operand type(s) for *'')
      | Some nu \<Rightarrow>
          (case array_mul data (integration_fourier radius nu) of
             Inl e \<Rightarrow> Inl e
           | Inr dat \<Rightarrow>
               (case dx of
                  None \<Rightarrow> Inl (TypeError ''unsupported operand type(s) for *'')
                | Some dx' \<Rightarrow>
                    (case dy of
                       None \<Rightarrow> Inl (TypeError ''unsupported operand type(s) for *'')
                     | Some dy' \<Rightarrow> Inr (radius * array_sum dat * dx' * dy')))))"

text \<open>
  Lines 99 to 105 of \<open>encircled_energy\<close>: the lazy construction of the MTF, of the
  radial frequencies (zeros replaced by \<open>1e-99\<close>) and of the two spacings.
  \<open>MTF.from_psf\<close> lives in another module and is a parameter.  Each attribute is
  assigned as the source reaches it, so an exception leaves the earlier ones set.
\<close>

definition radial_frequency :: "ndarray2 \<Rightarrow> ndarray2 \<Rightarrow> ndarray2" where
  "radial_frequency nx ny =
     \<lparr>nrows = nrows nx, ncols = ncols nx,
      at2 = (\<lambda>i j. let v = sqrt ((at2 nx i j)\<^sup>2 + (at2 ny i j)\<^sup>2)
                     in if v = 0 then 1 / 10 ^ 99 else v)\<rparr>"

definition build_mtf :: "(psf \<Rightarrow> error + mtf) \<Rightarrow> psf \<Rightarrow> error option \<times> psf" where
  "build_mtf from_psf s =
     (case from_psf s of
        Inl e \<Rightarrow> (Some e, s)
      | Inr m \<Rightarrow>
          (let s1 = s\<lparr>psf_mtf := Some m\<rparr>;
               (nx, ny) = meshgrid (mtf_x m) (mtf_y m);
               s2 = s1\<lparr>psf_nu_p := Some (radial_frequency nx ny)\<rparr>
           in case getitem2 ny 1 0 of Inl e \<Rightarrow> (Some e, s2) | Inr a \<Rightarrow>
              (case getitem2 ny 0 0 of Inl e \<Rightarrow> (Some e, s2) | Inr b \<Rightarrow>
              (case getitem2 nx 0 1 of Inl e \<Rightarrow> (Some e, s2) | Inr c \<Rightarrow>
              (case getitem2 nx 0 0 of Inl e \<Rightarrow> (Some e, s2) | Inr d \<Rightarrow>
                 (None, s2\<lparr>psf_dnx := Some (a - b), psf_dny := Some (c - d)\<rparr>))))))"

text \<open>One radius, lines 110 to 116 and 119 to 125: compute and store it unless the key
  is already in the dictionary, then read the dictionary.\<close>

definition ee_at :: "psf \<Rightarrow> real \<Rightarrow> (error + real) \<times> psf" where
  "ee_at s r =
     (case map_of (psf_ee s) r of
        Some v \<Rightarrow> (Inr v, s)
      | None \<Rightarrow>
          (case psf_mtf s of
             None \<Rightarrow> (Inl AttributeError, s)
           | Some m \<Rightarrow>
               (case encircled_energy_core (mtf_data m) (r / 1000)
                       (psf_nu_p s) (psf_dnx s) (psf_dny s) of
                  Inl e \<Rightarrow> (Inl e, s)
                | Inr v \<Rightarrow> (Inr v, s\<lparr>psf_ee := psf_ee s @ [(r, v)]\<rparr>))))"

fun ee_loop :: "psf \<Rightarrow> real list \<Rightarrow> real list \<Rightarrow> (error + real list) \<times> psf" where
  "ee_loop s [] out = (Inr out, s)"
| "ee_loop s (r # rs) out =
     (case ee_at s r of
        (Inl e, s') \<Rightarrow> (Inl e, s')
      | (Inr v, s') \<Rightarrow> ee_loop s' rs (out @ [v]))"

datatype radius_arg = Scalar real | Iterable "real list"

datatype ee_result = Float real | Array "real list"

definition encircled_energy ::
  "(psf \<Rightarrow> error + mtf) \<Rightarrow> radius_arg \<Rightarrow> psf \<Rightarrow> (error + ee_result) \<times> psf" where
  "encircled_energy from_psf radius s =
     (case (if psf_mtf s = None then build_mtf from_psf s else (None, s)) of
        (Some e, s1) \<Rightarrow> (Inl e, s1)
      | (None, s1) \<Rightarrow>
          (case radius of
             Iterable rs \<Rightarrow>
               (case ee_loop s1 rs [] of
                  (Inl e, s2) \<Rightarrow> (Inl e, s2)
                | (Inr out, s2) \<Rightarrow> (Inr (Array out), s2))
           | Scalar r \<Rightarrow>
               (case ee_at s1 r of
                  (Inl e, s2) \<Rightarrow> (Inl e, s2)
                | (Inr v, s2) \<Rightarrow> (Inr (Float v), s2))))"

text \<open>
  \<open>ee_radius\<close>, lines 129 to 139.  \<open>scipy.optimize.golden\<close> is a parameter: it is
  handed the objective, which evaluates \<open>encircled_energy\<close> and so changes the cache.
  A scalar radius never yields an array (lemma \<open>encircled_energy_scalar_Float\<close>), so the
  last case of the objective is never taken.
\<close>

primrec list_index :: "'a list \<Rightarrow> 'a \<Rightarrow> nat" where
  "list_index [] a = 0"
| "list_index (b # bs) a = (if b = a then 0 else Suc (list_index bs a))"

definition ee_optfcn ::
  "(psf \<Rightarrow> error + mtf) \<Rightarrow> real \<Rightarrow> real \<Rightarrow> psf \<Rightarrow> (error + real) \<times> psf" where
  "ee_optfcn from_psf energy x s =
     (case encircled_energy from_psf (Scalar x) s of
        (Inl e, s') \<Rightarrow> (Inl e, s')
      | (Inr (Float v), s') \<Rightarrow> (Inr ((v - energy)\<^sup>2), s')
      | (Inr (Array vs), s') \<Rightarrow> (Inl (TypeError ''array objective''), s'))"

definition ee_radius ::
  "((real \<Rightarrow> psf \<Rightarrow> (error + real) \<times> psf) \<Rightarrow> psf \<Rightarrow> (error + real) \<times> psf) \<Rightarrow>
   (psf \<Rightarrow> error + mtf) \<Rightarrow> real \<Rightarrow> psf \<Rightarrow> (error + real) \<times> psf" where
  "ee_radius golden from_psf energy s =
     (let k = map fst (psf_ee s); v = map snd (psf_ee s)
      in if energy \<in> set v then (Inr (k ! list_index v energy), s)
         else golden (ee_optfcn from_psf energy) s)"

text \<open>The closed form of lines 444 and 445, and its inversion, lines 448 to 452.  A zero
  \<open>fno\<close> or \<open>wavelength\<close> is a division by zero.\<close>

definition analytical_encircled_energy :: "real \<Rightarrow> real \<Rightarrow> real \<Rightarrow> error + real" where
  "analytical_encircled_energy fno wavelength points =
     (if fno = 0 \<or> wavelength = 0 then Inl ZeroDivisionError
      else (let p = points * pi / fno / wavelength
            in Inr (1 - (special_j0 p)\<^sup>2 - (special_j1 p)\<^sup>2)))"

definition analytic_optfcn :: "real \<Rightarrow> real \<Rightarrow> real \<Rightarrow> real \<Rightarrow> error + real" where
  "analytic_optfcn fno wavelength energy x =
     (case analytical_encircled_energy fno wavelength x of
        Inl e \<Rightarrow> Inl e
      | Inr v \<Rightarrow> Inr ((v - energy)\<^sup>2))"

definition inverse_analytic_encircled_energy ::
  "((real \<Rightarrow> error + real) \<Rightarrow> error + real) \<Rightarrow> real \<Rightarrow> real \<Rightarrow> real \<Rightarrow> error + real" where
  "inverse_analytic_encircled_energy golden fno wavelength energy =
     golden (analytic_optfcn fno wavelength energy)"

definition ee_radius_diffraction ::
  "((real \<Rightarrow> error + real) \<Rightarrow> error + real) \<Rightarrow> real \<Rightarrow> psf \<Rightarrow> error + real" where
  "ee_radius_diffraction golden energy s =
     (case psf_fno s of
        None \<Rightarrow> Inl AttributeError
      | Some fno \<Rightarrow>
          (case psf_wavelength s of
             None \<Rightarrow> Inl AttributeError
           | Some wavelength \<Rightarrow> inverse_analytic_encircled_energy golden fno wavelength energy))"

text \<open>
  \<open>plot_encircled_energy\<close>, lines 181 to 190.  \<open>axlim\<close> is \<open>None\<close>, a Python int or a
  float; \<open>axlim is 0\<close> compares identity with the int \<open>0\<close>, which no float object has.
  \<open>sort_xy\<close> (module \<open>util\<close>) is a parameter, and of the figure only the two plotted
  series are kept.
\<close>

datatype pynum = PyInt int | PyFloat real

fun num_value :: "pynum \<Rightarrow> real" where
  "num_value (PyInt i) = of_int i"
| "num_value (PyFloat x) = x"

definition linspace :: "real \<Rightarrow> real \<Rightarrow> int \<Rightarrow> error + real list" where
  "linspace start stop num =
     (if num < 0 then Inl (ValueError ''Number of samples must be non-negative'')
      else if num = 0 then Inr []
      else if num = 1 then Inr [start]
      else Inr (map (\<lambda>i. start + real i * ((stop - start) / real_of_int (num - 1)))
                  [0..<nat num]))"

definition plot_encircled_energy ::
  "(psf \<Rightarrow> error + mtf) \<Rightarrow> (real list \<Rightarrow> real list \<Rightarrow> real list \<times> real list) \<Rightarrow>
   pynum option \<Rightarrow> int \<Rightarrow> psf \<Rightarrow> (error + real list \<times> ee_result) \<times> psf" where
  "plot_encircled_energy from_psf sort_xy axlim npts s =
     (case axlim of
        None \<Rightarrow>
          (if length (psf_ee s) \<noteq> 0
           then (case sort_xy (map fst (psf_ee s)) (map snd (psf_ee s)) of
                   (xx, yy) \<Rightarrow> (Inr (xx, Array yy), s))
           else (Inl (ValueError
             ''if no values for encircled energy have been computed, axlim must be provided''), s))
      | Some a \<Rightarrow>
          (if a = PyInt 0 then (Inl (ValueError ''computing from 0 to 0 is stupid''), s)
           else (case linspace (1 / 10 ^ 5) (num_value a) npts of
                   Inl e \<Rightarrow> (Inl e, s)
                 | Inr xx \<Rightarrow>
                     (case encircled_energy from_psf (Iterable xx) s of
                        (Inl e, s') \<Rightarrow> (Inl e, s')
                      | (Inr yy, s') \<Rightarrow> (Inr (xx, yy), s')))))"

section \<open>mtf\_utils.py: MTF against field and focus\<close>

text \<open>A three-dimensional array, axes (focus, field, freq) for a cube.\<close>

record ndarray3 =
  dim0 :: nat
  dim1 :: nat
  dim2 :: nat
  at3 :: "nat \<Rightarrow> nat \<Rightarrow> nat \<Rightarrow> real"

record MTFvFvF =
  cube_data :: ndarray3
  cube_focus :: "real list"
  cube_field :: "real list"
  cube_freq :: "real list"
  cube_azimuth :: string

text \<open>Indexing a sequence with a Python int: a negative index counts from the end.\<close>

definition getitem :: "'a list \<Rightarrow> int \<Rightarrow> error + 'a" where
  "getitem xs i =
     (if 0 \<le> i \<and> i < int (length xs) then Inr (xs ! nat i)
      else if i < 0 \<and> - int (length xs) \<le> i then Inr (xs ! nat (int (length xs) + i))
      else Inl IndexError)"

text \<open>\<open>argmax\<close> and \<open>argmin\<close> of a sequence: the first position of the extreme value.\<close>

fun argmax_from :: "nat \<Rightarrow> real \<Rightarrow> nat \<Rightarrow> real list \<Rightarrow> nat" where
  "argmax_from bi bv i [] = bi"
| "argmax_from bi bv i (x # xs) =
     (if bv < x then argmax_from i x (Suc i) xs else argmax_from bi bv (Suc i) xs)"

definition argmax_list :: "real list \<Rightarrow> nat" where
  "argmax_list xs = (case xs of [] \<Rightarrow> 0 | x # rest \<Rightarrow> argmax_from 0 x 1 rest)"

definition argmin_list :: "real list \<Rightarrow> nat" where
  "argmin_list xs = argmax_list (map uminus xs)"

text \<open>\<open>data.argmax(axis=0)\<close>: for every field and frequency, the focus index of the
  maximum, as rows (one per field) of frequency columns.\<close>

definition argmax_axis0 :: "ndarray3 \<Rightarrow> error + nat list list" where
  "argmax_axis0 d =
     (if dim0 d = 0 then Inl (ValueError ''attempt to get argmax of an empty sequence'')
      else Inr (map (\<lambda>i. map (\<lambda>q. argmax_list (map (\<lambda>k. at3 d k i q) [0..<dim0 d]))
                              [0..<dim2 d])
                    [0..<dim1 d]))"

text \<open>\<open>mean(axis=1)\<close> of one row of indices; the mean of no value is NaN, here \<open>None\<close>.\<close>

definition mean_row :: "nat list \<Rightarrow> real option" where
  "mean_row ks = (if ks = [] then None else Some (real (sum_list ks) / real (length ks)))"

text \<open>
  The body of the loop of lines 214 to 219.  \<open>floor\<close> and \<open>ceil\<close> come from the module
  \<open>mathops\<close>, which hands out Python's \<open>math.floor\<close> and \<open>math.ceil\<close>: they return an
  int and raise \<open>ValueError\<close> on NaN.
\<close>

definition focus_at :: "real list \<Rightarrow> real option \<Rightarrow> error + real" where
  "focus_at focus idx =
     (case idx of
        None \<Rightarrow> Inl (ValueError ''cannot convert float NaN to integer'')
      | Some ix \<Rightarrow>
          (let li = \<lfloor>ix\<rfloor>; ri = \<lceil>ix\<rceil>
           in case getitem focus li of Inl e \<Rightarrow> Inl e | Inr lf \<Rightarrow>
              (case getitem focus ri of Inl e \<Rightarrow> Inl e | Inr rf \<Rightarrow>
                 (let diff = rf - lf; part = frac ix
                  in Inr (lf + diff * part)))))"

fun focus_loop :: "real list \<Rightarrow> real option list \<Rightarrow> error + real list" where
  "focus_loop focus [] = Inr []"
| "focus_loop focus (idx # rest) =
     (case focus_at focus idx of
        Inl e \<Rightarrow> Inl e
      | Inr v \<Rightarrow> (case focus_loop focus rest of Inl e \<Rightarrow> Inl e | Inr vs \<Rightarrow> Inr (v # vs)))"

definition trace_focus_avg :: "MTFvFvF \<Rightarrow> error + real list \<times> real list" where
  "trace_focus_avg c =
     (case cube_freq c of
        [] \<Rightarrow> Inl IndexError
      | f0 # _ \<Rightarrow>
          (case argmax_axis0 (cube_data c) of
             Inl e \<Rightarrow> Inl e
           | Inr am \<Rightarrow>
               (let avg_idxs = (if f0 = 0 then map (\<lambda>row. mean_row (drop 1 row)) am
                                else map mean_row am)
                in case focus_loop (cube_focus c) avg_idxs of
                     Inl e \<Rightarrow> Inl e
                   | Inr focus_out \<Rightarrow> Inr (focus_out, cube_field c))))"

text \<open>
  The branch \<open>'0.5'\<close>, lines 201 to 204.  \<open>np.searchsorted\<close> is the binary search for the
  leftmost insertion point.  \<open>data[:, idx_axis, :].max(axis=0)\<close> is one-dimensional, and
  \<open>argmin\<close> is asked for \<open>axis=1\<close> of it.
\<close>

function searchsorted_from :: "real list \<Rightarrow> real \<Rightarrow> nat \<Rightarrow> nat \<Rightarrow> nat" where
  "searchsorted_from a v lo hi =
     (if lo < hi
      then (let mid = lo + (hi - lo) div 2
            in if a ! mid < v then searchsorted_from a v (mid + 1) hi
               else searchsorted_from a v lo mid)
      else lo)"
  by pat_completeness auto
termination
  by (relation "measure (\<lambda>(a, v, lo, hi). hi - lo)") auto

definition searchsorted :: "real list \<Rightarrow> real \<Rightarrow> nat" where
  "searchsorted a v = searchsorted_from a v 0 (length a)"

definition max_axis0_at :: "ndarray3 \<Rightarrow> nat \<Rightarrow> error + real list" where
  "max_axis0_at d i =
     (if dim1 d \<le> i then Inl IndexError
      else if dim0 d = 0
      then Inl (ValueError ''zero-size array to reduction operation maximum which has no identity'')
      else Inr (map (\<lambda>q. fold max (map (\<lambda>k. at3 d k i q) [1..<dim0 d]) (at3 d 0 i q))
                    [0..<dim2 d]))"

definition ndarray1_argmin :: "real list \<Rightarrow> nat \<Rightarrow> error + nat" where
  "ndarray1_argmin xs axis =
     (if axis \<noteq> 0 then Inl AxisError
      else if xs = [] then Inl (ValueError ''attempt to get argmin of an empty sequence'')
      else Inr (argmin_list xs))"

fun take_all :: "'a list \<Rightarrow> nat list \<Rightarrow> error + 'a list" where
  "take_all xs [] = Inr []"
| "take_all xs (k # ks) =
     (case getitem xs (int k) of
        Inl e \<Rightarrow> Inl e
      | Inr v \<Rightarrow> (case take_all xs ks of Inl e \<Rightarrow> Inl e | Inr vs \<Rightarrow> Inr (v # vs)))"

definition trace_focus_half :: "MTFvFvF \<Rightarrow> error + real list \<times> real list" where
  "trace_focus_half c =
     (let d = cube_data c; idx_axis = searchsorted (cube_field c) 0
      in case max_axis0_at d idx_axis of
           Inl e \<Rightarrow> Inl e
         | Inr peaks \<Rightarrow>
             (case ndarray1_argmin (map (\<lambda>p. \<bar>p - 0.5\<bar>) peaks) 1 of
                Inl e \<Rightarrow> Inl e
              | Inr idx_freq \<Rightarrow>
                  (if dim2 d \<le> idx_freq then Inl IndexError
                   else if dim0 d = 0
                   then Inl (ValueError ''attempt to get argmax of an empty sequence'')
                   else (case take_all (cube_focus c)
                                (map (\<lambda>i. argmax_list (map (\<lambda>k. at3 d k i idx_freq) [0..<dim0 d]))
                                     [0..<dim1 d]) of
                           Inl e \<Rightarrow> Inl e
                         | Inr fs \<Rightarrow> Inr (fs, cube_field c)))))"

text \<open>\<open>str.lower\<close> on the letters A to Z; no other character lower-cases to a letter of
  \<open>avg\<close> or \<open>average\<close>.\<close>

definition lower_char :: "char \<Rightarrow> char" where
  "lower_char ch =
     (case map_of (zip ''ABCDEFGHIJKLMNOPQRSTUVWXYZ'' ''abcdefghijklmnopqrstuvwxyz'') ch of
        Some l \<Rightarrow> l
      | None \<Rightarrow> ch)"

definition lower :: "string \<Rightarrow> string" where
  "lower s = map lower_char s"

definition trace_focus :: "MTFvFvF \<Rightarrow> string \<Rightarrow> error + real list \<times> real list" where
  "trace_focus c algorithm =
     (if algorithm = ''0.5'' then trace_focus_half c
      else if lower algorithm \<in> {''avg'', ''average''} then trace_focus_avg c
      else Inl (ValueError ''0.5 is only algorithm supported''))"

text \<open>
  The full-field display.  \<open>raise NotImplemented(...)\<close> calls the constant
  \<open>NotImplemented\<close>, which is not callable: what is raised is a \<open>TypeError\<close>.  Lines 442
  to 471 of \<open>from_trioptics_files\<close> read the files and grid them with
  \<open>scipy.interpolate.griddata\<close>; their outcome is the parameter \<open>gridded\<close>.
\<close>

record MTFFFD =
  ffd_data :: ndarray3
  ffd_field_x :: "real list"
  ffd_field_y :: "real list"
  ffd_freq :: "real list"

record gridded_mtf =
  grid_tan :: ndarray3
  grid_sag :: ndarray3
  grid_out_x :: "real list"
  grid_out_y :: "real list"
  grid_farr :: "real list list"

definition call_NotImplemented :: "string \<Rightarrow> error" where
  "call_NotImplemented msg = TypeError ''NotImplementedType object is not callable''"

definition from_dataframe :: "'df \<Rightarrow> string \<Rightarrow> error + MTFFFD" where
  "from_dataframe df azimuth =
     Inl (call_NotImplemented ''not yet complete, df schema needs to be designed'')"

definition from_trioptics_files ::
  "(string list \<Rightarrow> real list \<Rightarrow> nat \<Rightarrow> error + gridded_mtf) \<Rightarrow>
   string list \<Rightarrow> real list \<Rightarrow> nat \<Rightarrow> string list \<Rightarrow> error + MTFFFD \<times> MTFFFD" where
  "from_trioptics_files gridded paths azimuths upsample ret =
     (case gridded paths azimuths upsample of
        Inl e \<Rightarrow> Inl e
      | Inr g \<Rightarrow>
          (if ret = [''tan'', ''sag'']
           then (case grid_farr g of
                   [] \<Rightarrow> Inl IndexError
                 | f0 # _ \<Rightarrow>
                     Inr (\<lparr>ffd_data = grid_tan g, ffd_field_x = grid_out_x g,
                            ffd_field_y = grid_out_y g, ffd_freq = f0\<rparr>,
                          \<lparr>ffd_data = grid_sag g, ffd_field_x = grid_out_x g,
                            ffd_field_y = grid_out_y g, ffd_freq = f0\<rparr>))
           else Inl (call_NotImplemented ''other returns not implemented'')))"

section \<open>Consistent states and sample inputs\<close>

text \<open>
  The radial frequency field the lazy construction stores for an MTF, and the states a
  \<open>PSF\<close> object can reach: the keys of the cache are distinct, nothing is cached before
  the MTF is built, and every cached value is the core computation at its key.  A fresh
  object is consistent (\<open>PSF_init_consistent\<close>) and every call of \<open>encircled_energy\<close>
  keeps it so, whether it returns or raises (\<open>encircled_energy_consistent\<close>).
\<close>

definition mtf_nu_p :: "mtf \<Rightarrow> ndarray2" where
  "mtf_nu_p m = (case meshgrid (mtf_x m) (mtf_y m) of (nx, ny) \<Rightarrow> radial_frequency nx ny)"

definition psf_consistent :: "psf \<Rightarrow> bool" where
  "psf_consistent s =
     (distinct (map fst (psf_ee s)) \<and>
      (case psf_mtf s of
         None \<Rightarrow> psf_ee s = []
       | Some m \<Rightarrow>
           psf_nu_p s = Some (mtf_nu_p m) \<and>
           (\<forall>(r, v) \<in> set (psf_ee s).
              encircled_energy_core (mtf_data m) (r / 1000)
                (psf_nu_p s) (psf_dnx s) (psf_dny s) = Inr v)))"

text \<open>
  The spacings of a reachable state: unset until the lazy construction has finished, and
  then the steps of the MTF's own axes, \<open>y[1] - y[0]\<close> and \<open>x[1] - x[0]\<close>.  A fresh
  object satisfies this (\<open>PSF_init_spaced\<close>) and every call of \<open>encircled_energy\<close> keeps
  it (\<open>encircled_energy_spaced\<close>).
\<close>

definition psf_spaced :: "psf \<Rightarrow> bool" where
  "psf_spaced s =
     (case psf_mtf s of
        None \<Rightarrow> psf_dnx s = None \<and> psf_dny s = None
      | Some m \<Rightarrow>
          (psf_dnx s = None \<and> psf_dny s = None) \<or>
          (2 \<le> length (mtf_x m) \<and> 2 \<le> length (mtf_y m) \<and>
           psf_dnx s = Some (mtf_y m ! 1 - mtf_y m ! 0) \<and>
           psf_dny s = Some (mtf_x m ! 1 - mtf_x m ! 0)))"

text \<open>A two by two MTF of ones, and a fresh PSF.\<close>

definition example_mtf :: mtf where
  "example_mtf = \<lparr>mtf_data = \<lparr>nrows = 2, ncols = 2, at2 = (\<lambda>i j. 1)\<rparr>,
                  mtf_x = [0, 1], mtf_y = [0, 1]\<rparr>"

definition example_psf :: psf where
  "example_psf = PSF_init [0, 1] [0, 1] \<lparr>nrows = 2, ncols = 2, at2 = (\<lambda>i j. 1)\<rparr>"

text \<open>
  What it is for \<open>k\<close> to be the focus index of the maximum MTF at field \<open>i\<close> and
  frequency \<open>q\<close>: the first index at which the maximum over the focus axis is taken.
\<close>

definition first_peak :: "ndarray3 \<Rightarrow> nat \<Rightarrow> nat \<Rightarrow> nat \<Rightarrow> bool" where
  "first_peak d i q k =
     (k < dim0 d \<and> (\<forall>k'<dim0 d. at3 d k' i q \<le> at3 d k i q) \<and>
      (\<forall>k'<k. at3 d k' i q < at3 d k i q))"

text \<open>
  Three cubes over the focus positions of the specification's example: one peaking at
  focus index 2 everywhere, one whose peak moves with the frequency, and one that holds
  the zero frequency alone.
\<close>

definition flat_cube :: MTFvFvF where
  "flat_cube =
     \<lparr>cube_data = \<lparr>dim0 = 5, dim1 = 2, dim2 = 2, at3 = (\<lambda>k i q. if k = 2 then 1 else 0)\<rparr>,
      cube_focus = [-10, -5, 0, 5, 10], cube_field = [0, 1], cube_freq = [10, 20],
      cube_azimuth = ''Tan''\<rparr>"

definition tilted_cube :: MTFvFvF where
  "tilted_cube =
     \<lparr>cube_data = \<lparr>dim0 = 5, dim1 = 2, dim2 = 2, at3 = (\<lambda>k i q. if k = q + 1 then 1 else 0)\<rparr>,
      cube_focus = [-10, -5, 0, 5, 10], cube_field = [0, 1], cube_freq = [10, 20],
      cube_azimuth = ''Tan''\<rparr>"

definition dc_cube :: MTFvFvF where
  "dc_cube =
     \<lparr>cube_data = \<lparr>dim0 = 3, dim1 = 1, dim2 = 1, at3 = (\<lambda>k i q. if k = 1 then 1 else 1 / 2)\<rparr>,
      cube_focus = [-1, 0, 1], cube_field = [0], cube_freq = [0],
      cube_azimuth = ''Tan''\<rparr>"

section \<open>Facts about the primitives\<close>

lemma special_j1_zero: "special_j1 0 = 0"
  by (simp add: special_j1_def)

lemma special_j0_zero: "special_j0 0 = 1"
proof -
  have "special_j0 0 = (\<Sum>m\<in>{0::nat}. (- 1) ^ m / (fact m * fact m) * ((0::real) / 2) ^ (2 * m))"
    unfolding special_j0_def by (rule suminf_finite) auto
  then show ?thesis by simp
qed

section \<open>The encircled energy and its cache\<close>



lemma mtf_nu_p_shape: "nrows (mtf_nu_p m) = length (mtf_y m)" "ncols (mtf_nu_p m) = length (mtf_x m)"
  by (simp_all add: mtf_nu_p_def meshgrid_def radial_frequency_def)

lemma PSF_init_consistent: "psf_consistent (PSF_init x y d)"
  by (simp add: psf_consistent_def PSF_init_def)

lemma build_mtf_ee: "build_mtf from_psf s = (err, s1) \<Longrightarrow> psf_ee s1 = psf_ee s"
  by (auto simp: build_mtf_def meshgrid_def Let_def split: sum.splits)

lemma build_mtf_ok:
  assumes "build_mtf from_psf s = (None, s1)"
  shows "\<exists>m. from_psf s = Inr m \<and> 2 \<le> length (mtf_x m) \<and> 2 \<le> length (mtf_y m) \<and>
           s1 = s\<lparr>psf_mtf := Some m, psf_nu_p := Some (mtf_nu_p m),
                  psf_dnx := Some (mtf_y m ! 1 - mtf_y m ! 0),
                  psf_dny := Some (mtf_x m ! 1 - mtf_x m ! 0)\<rparr>"
  using assms
  by (auto simp: build_mtf_def meshgrid_def mtf_nu_p_def getitem2_def Let_def
      split: sum.splits if_splits)

lemma build_mtf_returns:
  assumes "from_psf s = Inr m" "2 \<le> length (mtf_x m)" "2 \<le> length (mtf_y m)"
  shows "build_mtf from_psf s =
           (None, s\<lparr>psf_mtf := Some m, psf_nu_p := Some (mtf_nu_p m),
                  psf_dnx := Some (mtf_y m ! 1 - mtf_y m ! 0),
                  psf_dny := Some (mtf_x m ! 1 - mtf_x m ! 0)\<rparr>)"
  using assms
  by (auto simp: build_mtf_def meshgrid_def mtf_nu_p_def getitem2_def Let_def)

lemma build_mtf_consistent:
  assumes "psf_consistent s" "psf_mtf s = None"
  shows "psf_consistent (snd (build_mtf from_psf s))"
  using assms
  by (auto simp: psf_consistent_def build_mtf_def meshgrid_def mtf_nu_p_def Let_def
      split: sum.splits)

lemma ee_at_Inl: "ee_at s r = (Inl e, s') \<Longrightarrow> s' = s"
  by (auto simp: ee_at_def split: option.splits sum.splits)

lemma ee_at_Inr:
  assumes "ee_at s r = (Inr v, s')"
  shows "map_of (psf_ee s') r = Some v \<and>
         (s' = s \<or>
          (map_of (psf_ee s) r = None \<and> s' = s\<lparr>psf_ee := psf_ee s @ [(r, v)]\<rparr> \<and>
           (\<exists>m. psf_mtf s = Some m \<and>
              encircled_energy_core (mtf_data m) (r / 1000)
                (psf_nu_p s) (psf_dnx s) (psf_dny s) = Inr v)))"
  using assms
  by (auto simp: ee_at_def map_add_def split: option.splits sum.splits)

lemma ee_at_hit: "map_of (psf_ee s) r = Some v \<Longrightarrow> ee_at s r = (Inr v, s)"
  by (simp add: ee_at_def)

lemma ee_at_grows: "ee_at s r = (x, s') \<Longrightarrow> \<exists>new. s' = s\<lparr>psf_ee := psf_ee s @ new\<rparr> \<and> set (map fst new) \<subseteq> {r}"
proof (cases x)
  case (Inl e)
  assume "ee_at s r = (x, s')"
  with Inl have "s' = s" by (simp add: ee_at_Inl)
  then have "s' = s\<lparr>psf_ee := psf_ee s @ []\<rparr> \<and> set (map fst ([]::(real \<times> real) list)) \<subseteq> {r}" by simp
  then show ?thesis by blast
next
  case (Inr v)
  assume "ee_at s r = (x, s')"
  with Inr have "s' = s \<or> s' = s\<lparr>psf_ee := psf_ee s @ [(r, v)]\<rparr>"
    using ee_at_Inr by blast
  then show ?thesis
  proof
    assume "s' = s"
    then have "s' = s\<lparr>psf_ee := psf_ee s @ []\<rparr> \<and> set (map fst ([]::(real \<times> real) list)) \<subseteq> {r}" by simp
    then show ?thesis by blast
  next
    assume "s' = s\<lparr>psf_ee := psf_ee s @ [(r, v)]\<rparr>"
    then have "s' = s\<lparr>psf_ee := psf_ee s @ [(r, v)]\<rparr> \<and> set (map fst [(r, v)]) \<subseteq> {r}" by simp
    then show ?thesis by blast
  qed
qed

lemma ee_at_consistent:
  assumes "psf_consistent s"
  shows "psf_consistent (snd (ee_at s r))"
proof (cases "ee_at s r")
  case (Pair x s')
  show ?thesis
  proof (cases x)
    case (Inl e)
    with Pair have "s' = s" using ee_at_Inl by blast
    with Pair assms show ?thesis by simp
  next
    case (Inr v)
    with Pair have "ee_at s r = (Inr v, s')" by simp
    from ee_at_Inr[OF this] assms Pair show ?thesis
      by (auto simp: psf_consistent_def map_of_eq_None_iff split: option.splits)
  qed
qed

lemma map_of_append_keep: "map_of xs k = Some v \<Longrightarrow> map_of (xs @ ys) k = Some v"
  by (simp add: map_add_def)

lemma ee_loop_grows:
  "ee_loop s rs out = (x, s') \<Longrightarrow>
     \<exists>new. s' = s\<lparr>psf_ee := psf_ee s @ new\<rparr> \<and> set (map fst new) \<subseteq> set rs"
proof (induction rs arbitrary: s out)
  case Nil
  then have "s' = s\<lparr>psf_ee := psf_ee s @ []\<rparr> \<and> set (map fst ([]::(real \<times> real) list)) \<subseteq> set []"
    by simp
  then show ?case by blast
next
  case (Cons r rs)
  obtain y s1 where at: "ee_at s r = (y, s1)" by (cases "ee_at s r")
  from ee_at_grows[OF at] obtain n1 where
    s1: "s1 = s\<lparr>psf_ee := psf_ee s @ n1\<rparr>" and k1: "set (map fst n1) \<subseteq> {r}" by blast
  show ?case
  proof (cases y)
    case (Inl e)
    with at Cons.prems have "s' = s1" by simp
    with s1 k1 have "s' = s\<lparr>psf_ee := psf_ee s @ n1\<rparr> \<and> set (map fst n1) \<subseteq> set (r # rs)"
      by auto
    then show ?thesis by blast
  next
    case (Inr v)
    with at Cons.prems have "ee_loop s1 rs (out @ [v]) = (x, s')" by simp
    from Cons.IH[OF this] obtain n2 where
      s2: "s' = s1\<lparr>psf_ee := psf_ee s1 @ n2\<rparr>" and k2: "set (map fst n2) \<subseteq> set rs" by blast
    from s1 s2 k1 k2
    have "s' = s\<lparr>psf_ee := psf_ee s @ (n1 @ n2)\<rparr> \<and> set (map fst (n1 @ n2)) \<subseteq> set (r # rs)"
      by auto
    then show ?thesis by blast
  qed
qed

lemma ee_loop_consistent:
  "psf_consistent s \<Longrightarrow> psf_consistent (snd (ee_loop s rs out))"
proof (induction rs arbitrary: s out)
  case Nil
  then show ?case by simp
next
  case (Cons r rs)
  obtain y s1 where at: "ee_at s r = (y, s1)" by (cases "ee_at s r")
  from ee_at_consistent[OF Cons.prems, of r] at have c1: "psf_consistent s1" by simp
  show ?case
  proof (cases y)
    case (Inl e)
    with at c1 show ?thesis by simp
  next
    case (Inr v)
    with at Cons.IH[OF c1, of "out @ [v]"] show ?thesis by simp
  qed
qed

lemma ee_loop_values:
  "ee_loop s rs out = (Inr res, s') \<Longrightarrow>
     \<exists>vs. res = out @ vs \<and> length vs = length rs \<and>
          (\<forall>i<length rs. map_of (psf_ee s') (rs ! i) = Some (vs ! i))"
proof (induction rs arbitrary: s out)
  case Nil
  then show ?case by simp
next
  case (Cons r rs)
  obtain y s1 where at: "ee_at s r = (y, s1)" by (cases "ee_at s r")
  show ?case
  proof (cases y)
    case (Inl e)
    with at Cons.prems show ?thesis by simp
  next
    case (Inr v)
    with at Cons.prems have loop: "ee_loop s1 rs (out @ [v]) = (Inr res, s')" by simp
    from Cons.IH[OF loop] obtain vs where
      res: "res = (out @ [v]) @ vs" and len: "length vs = length rs"
      and vals: "\<forall>i<length rs. map_of (psf_ee s') (rs ! i) = Some (vs ! i)" by blast
    from at Inr have "map_of (psf_ee s1) r = Some v" using ee_at_Inr by blast
    moreover from ee_loop_grows[OF loop] obtain n2 where "psf_ee s' = psf_ee s1 @ n2"
      by auto
    ultimately have hd: "map_of (psf_ee s') r = Some v" by (simp add: map_of_append_keep)
    have "\<forall>i<length (r # rs). map_of (psf_ee s') ((r # rs) ! i) = Some ((v # vs) ! i)"
    proof (intro allI impI)
      fix i assume "i < length (r # rs)"
      then show "map_of (psf_ee s') ((r # rs) ! i) = Some ((v # vs) ! i)"
        using hd vals by (cases i) auto
    qed
    with res len have "res = out @ (v # vs) \<and> length (v # vs) = length (r # rs) \<and>
       (\<forall>i<length (r # rs). map_of (psf_ee s') ((r # rs) ! i) = Some ((v # vs) ! i))"
      by simp
    then show ?thesis by blast
  qed
qed

lemma encircled_energy_Inr:
  assumes "encircled_energy from_psf rad s = (Inr res, s')"
  obtains s1 where
    "(if psf_mtf s = None then build_mtf from_psf s else (None, s)) = (None, s1)"
    "psf_mtf s1 \<noteq> None" "psf_ee s1 = psf_ee s"
    "psf_consistent s \<Longrightarrow> psf_consistent s1"
    "case rad of
       Scalar r \<Rightarrow> (\<exists>v. ee_at s1 r = (Inr v, s') \<and> res = Float v)
     | Iterable rs \<Rightarrow> (\<exists>out. ee_loop s1 rs [] = (Inr out, s') \<and> res = Array out)"
proof -
  obtain err s1 where prep:
    "(if psf_mtf s = None then build_mtf from_psf s else (None, s)) = (err, s1)"
    by (cases "if psf_mtf s = None then build_mtf from_psf s else (None, s)")
  from assms prep have err: "err = None"
    by (cases err) (auto simp: encircled_energy_def)
  have mtf1: "psf_mtf s1 \<noteq> None"
  proof (cases "psf_mtf s = None")
    case True
    with prep err have "build_mtf from_psf s = (None, s1)" by simp
    from build_mtf_ok[OF this] show ?thesis by auto
  next
    case False
    with prep show ?thesis by auto
  qed
  have ee1: "psf_ee s1 = psf_ee s"
    using prep build_mtf_ee by (auto split: if_splits)
  have cons1: "psf_consistent s \<Longrightarrow> psf_consistent s1"
    using prep build_mtf_consistent[of s from_psf] by (auto split: if_splits)
  have body: "case rad of
       Scalar r \<Rightarrow> (\<exists>v. ee_at s1 r = (Inr v, s') \<and> res = Float v)
     | Iterable rs \<Rightarrow> (\<exists>out. ee_loop s1 rs [] = (Inr out, s') \<and> res = Array out)"
    using assms prep err
    by (auto simp: encircled_energy_def split: radius_arg.splits prod.splits sum.splits)
  from prep err mtf1 ee1 cons1 body that show thesis by blast
qed

lemma encircled_energy_consistent:
  assumes "psf_consistent s"
  shows "psf_consistent (snd (encircled_energy from_psf rad s))"
proof -
  obtain err s1 where prep:
    "(if psf_mtf s = None then build_mtf from_psf s else (None, s)) = (err, s1)"
    by (cases "if psf_mtf s = None then build_mtf from_psf s else (None, s)")
  have c1: "psf_consistent s1"
    using prep assms build_mtf_consistent[of s from_psf] by (auto split: if_splits)
  show ?thesis
  proof (cases err)
    case (Some e)
    with prep c1 show ?thesis by (simp add: encircled_energy_def)
  next
    case None
    show ?thesis
    proof (cases rad)
      case (Scalar r)
      from ee_at_consistent[OF c1, of r] prep None Scalar show ?thesis
        by (auto simp: encircled_energy_def split: prod.splits sum.splits)
    next
      case (Iterable rs)
      from ee_loop_consistent[OF c1, of rs "[]"] prep None Iterable show ?thesis
        by (auto simp: encircled_energy_def split: prod.splits sum.splits)
    qed
  qed
qed

lemma encircled_energy_scalar_Float:
  assumes "encircled_energy from_psf (Scalar r) s = (Inr res, s')"
  shows "\<exists>v. res = Float v"
  by (rule encircled_energy_Inr[OF assms]) auto

lemma encircled_energy_hit:
  assumes "psf_mtf s \<noteq> None" "map_of (psf_ee s) r = Some v"
  shows "encircled_energy from_psf (Scalar r) s = (Inr (Float v), s)"
  using assms by (auto simp add: encircled_energy_def ee_at_hit)

lemma consistent_cached:
  assumes "psf_consistent s" "map_of (psf_ee s) r = Some v"
  shows "\<exists>m. psf_mtf s = Some m \<and> psf_nu_p s = Some (mtf_nu_p m) \<and>
           encircled_energy_core (mtf_data m) (r / 1000)
             (Some (mtf_nu_p m)) (psf_dnx s) (psf_dny s) = Inr v"
proof -
  from assms(2) have mem: "(r, v) \<in> set (psf_ee s)" by (rule map_of_SomeD)
  then have "psf_ee s \<noteq> []" by auto
  with assms(1) obtain m where m: "psf_mtf s = Some m"
    by (cases "psf_mtf s") (auto simp: psf_consistent_def)
  with assms(1) mem show ?thesis
    by (auto simp: psf_consistent_def)
qed




lemma core_returns:
  assumes "broadcast_dim (nrows d) (nrows nu) \<noteq> None" "broadcast_dim (ncols d) (ncols nu) \<noteq> None"
  shows "\<exists>v. encircled_energy_core d rc (Some nu) (Some dx) (Some dy) = Inr v"
  using assms
  by (auto simp: encircled_energy_core_def array_mul_def integration_fourier_def)

lemma encircled_energy_scalar_returns:
  assumes "psf_mtf s = None" "from_psf s = Inr m"
    and "2 \<le> length (mtf_x m)" "2 \<le> length (mtf_y m)"
    and "broadcast_dim (nrows (mtf_data m)) (length (mtf_y m)) \<noteq> None"
    and "broadcast_dim (ncols (mtf_data m)) (length (mtf_x m)) \<noteq> None"
  shows "\<exists>v s'. encircled_energy from_psf (Scalar r) s = (Inr (Float v), s')"
proof -
  let ?s1 = "s\<lparr>psf_mtf := Some m, psf_nu_p := Some (mtf_nu_p m),
                  psf_dnx := Some (mtf_y m ! 1 - mtf_y m ! 0),
                  psf_dny := Some (mtf_x m ! 1 - mtf_x m ! 0)\<rparr>"
  have b: "build_mtf from_psf s = (None, ?s1)"
    using assms(2-4) by (rule build_mtf_returns)
  from core_returns[of "mtf_data m" "mtf_nu_p m" "r / 1000"] assms(5,6)
  obtain v where v: "encircled_energy_core (mtf_data m) (r / 1000) (Some (mtf_nu_p m))
      (Some (mtf_y m ! 1 - mtf_y m ! 0)) (Some (mtf_x m ! 1 - mtf_x m ! 0)) = Inr v"
    by (auto simp: mtf_nu_p_shape)
  have "\<exists>w s'. ee_at ?s1 r = (Inr w, s')"
    using v by (cases "map_of (psf_ee s) r") (auto simp: ee_at_def)
  then obtain w s' where "ee_at ?s1 r = (Inr w, s')" by blast
  with b assms(1) have "encircled_energy from_psf (Scalar r) s = (Inr (Float w), s')"
    by (simp add: encircled_energy_def)
  then show ?thesis by blast
qed

lemma example_returns:
  "\<exists>v s'. encircled_energy (\<lambda>_. Inr example_mtf) (Scalar r) example_psf = (Inr (Float v), s')"
  by (rule encircled_energy_scalar_returns[where m = example_mtf])
     (simp_all add: example_psf_def PSF_init_def example_mtf_def broadcast_dim_def)


lemma build_mtf_spaced:
  assumes "psf_spaced s" "psf_mtf s = None"
  shows "psf_spaced (snd (build_mtf from_psf s))"
  using assms
  by (auto simp: psf_spaced_def build_mtf_def meshgrid_def getitem2_def Let_def
      split: sum.splits if_splits)

lemma psf_spaced_ee: "psf_spaced (s\<lparr>psf_ee := ee\<rparr>) = psf_spaced s"
  by (simp add: psf_spaced_def split: option.splits)

lemma encircled_energy_spaced:
  assumes "psf_spaced s"
  shows "psf_spaced (snd (encircled_energy from_psf rad s))"
proof -
  obtain err s1 where prep:
    "(if psf_mtf s = None then build_mtf from_psf s else (None, s)) = (err, s1)"
    by (cases "if psf_mtf s = None then build_mtf from_psf s else (None, s)")
  have c1: "psf_spaced s1"
    using prep assms build_mtf_spaced[of s from_psf] by (auto split: if_splits)
  show ?thesis
  proof (cases err)
    case (Some e)
    with prep c1 show ?thesis by (simp add: encircled_energy_def)
  next
    case None
    show ?thesis
    proof (cases rad)
      case (Scalar r)
      obtain y s2 where at: "ee_at s1 r = (y, s2)" by (cases "ee_at s1 r")
      from ee_at_grows[OF at] c1 have "psf_spaced s2" by (auto simp: psf_spaced_ee)
      with at prep None Scalar show ?thesis
        by (auto simp: encircled_energy_def split: sum.splits)
    next
      case (Iterable rs)
      obtain y s2 where lp: "ee_loop s1 rs [] = (y, s2)" by (cases "ee_loop s1 rs []")
      from ee_loop_grows[OF lp] c1 have "psf_spaced s2" by (auto simp: psf_spaced_ee)
      with lp prep None Iterable show ?thesis
        by (auto simp: encircled_energy_def split: sum.splits)
    qed
  qed
qed








lemma core_zero_radius: "encircled_energy_core d 0 nu dx dy = Inr v \<Longrightarrow> v = 0"
  by (auto simp: encircled_energy_core_def split: option.splits sum.splits)

lemma scalar_zero_radius:
  assumes "psf_consistent s"
    and "encircled_energy from_psf (Scalar 0) s = (Inr res, s')"
  shows "res = Float 0 \<and> map_of (psf_ee s') 0 = Some 0"
proof -
  obtain s1 v where
    c1: "psf_consistent s \<Longrightarrow> psf_consistent s1" and
    at: "ee_at s1 0 = (Inr v, s')" and res: "res = Float v"
    by (rule encircled_energy_Inr[OF assms(2)]) auto
  from ee_at_consistent[OF c1[OF assms(1)], of 0] at have cs': "psf_consistent s'" by simp
  from at have hit: "map_of (psf_ee s') 0 = Some v" using ee_at_Inr by blast
  from consistent_cached[OF cs' hit] have "v = 0"
    by (auto dest: core_zero_radius)
  with res hit show ?thesis by simp
qed

text \<open>
  Claim C10: on a consistent PSF, a call of \<open>encircled_energy\<close> with the radius 0 that
  returns, returns the scalar 0, and afterwards the cache maps the key 0 to 0.
\<close>

theorem encircled_energy_zero_radius:
  assumes "psf_consistent s"
    and "encircled_energy from_psf (Scalar 0) s = (Inr res, s')"
  shows "res = Float 0 \<and> map_of (psf_ee s') 0 = Some 0"
  using assms by (rule scalar_zero_radius)

theorem encircled_energy_zero_radius_witness:
  "psf_consistent example_psf \<and>
   (\<exists>s'. encircled_energy (\<lambda>_. Inr example_mtf) (Scalar 0) example_psf = (Inr (Float 0), s')
      \<and> map_of (psf_ee s') 0 = Some 0)"
proof -
  have c: "psf_consistent example_psf"
    by (simp add: example_psf_def PSF_init_consistent)
  obtain v s' where r: "encircled_energy (\<lambda>_. Inr example_mtf) (Scalar 0) example_psf
      = (Inr (Float v), s')"
    using example_returns by blast
  from encircled_energy_zero_radius[OF c r] r c show ?thesis by auto
qed

lemma list_index_nth:
  "a \<in> set xs \<Longrightarrow> list_index xs a < length xs \<and> xs ! list_index xs a = a"
  by (induction xs) auto

lemma encircled_energy_scalar_cached:
  assumes "encircled_energy from_psf (Scalar r) s = (Inr (Float v), s')"
  shows "map_of (psf_ee s') r = Some v"
proof -
  obtain s1 where "ee_at s1 r = (Inr v, s')"
    by (rule encircled_energy_Inr[OF assms]) auto
  then show ?thesis using ee_at_Inr by blast
qed

lemma ee_radius_hit:
  assumes "(r, e) \<in> set (psf_ee s)"
  shows "\<exists>r'. (r', e) \<in> set (psf_ee s) \<and>
              (\<forall>golden. ee_radius golden from_psf e s = (Inr r', s)) \<and>
              (distinct (map snd (psf_ee s)) \<longrightarrow> r' = r)"
proof -
  let ?k = "map fst (psf_ee s)" and ?v = "map snd (psf_ee s)"
  let ?i = "list_index ?v e"
  from assms have mem: "e \<in> set ?v" by force
  from list_index_nth[OF mem] have i: "?i < length (psf_ee s)" and vi: "?v ! ?i = e" by simp_all
  from i vi have pair: "psf_ee s ! ?i = (?k ! ?i, e)" by (simp add: prod_eq_iff)
  with i have in_cache: "(?k ! ?i, e) \<in> set (psf_ee s)" by (metis nth_mem)
  have ret: "ee_radius golden from_psf e s = (Inr (?k ! ?i), s)" for golden
    using mem by (simp add: ee_radius_def Let_def)
  have uniq: "?k ! ?i = r" if d: "distinct ?v"
  proof -
    from assms obtain j where j: "j < length (psf_ee s)" and pj: "psf_ee s ! j = (r, e)"
      by (auto simp: in_set_conv_nth)
    then have vj: "?v ! j = e" by simp
    have "?v ! j = ?v ! ?i \<longleftrightarrow> j = ?i"
      using d i j by (intro nth_eq_iff_index_eq) simp_all
    with vj vi have "j = ?i" by simp
    with pj pair show ?thesis by simp
  qed
  from in_cache ret uniq show ?thesis by blast
qed

text \<open>
  Claim C4: when the target energy equals the energy of a cached pair, \<open>ee_radius\<close>
  returns a cached radius of that energy and leaves the state as it was, whatever the
  minimiser is (it is never called); with pairwise distinct cached energies this is the
  radius of the pair.  So after \<open>encircled_energy\<close> returned \<open>e0\<close> for \<open>r0\<close>, the pair
  is cached and \<open>ee_radius e0\<close> gives back \<open>r0\<close> when the cached energies are distinct.
\<close>

theorem ee_radius_exact_match:
  "((r, e) \<in> set (psf_ee s) \<longrightarrow>
      (\<exists>r'. (r', e) \<in> set (psf_ee s) \<and>
             (\<forall>golden. ee_radius golden from_psf e s = (Inr r', s)) \<and>
             (distinct (map snd (psf_ee s)) \<longrightarrow> r' = r))) \<and>
   (encircled_energy from_psf (Scalar r0) s0 = (Inr (Float e0), s1) \<longrightarrow>
      (r0, e0) \<in> set (psf_ee s1) \<and>
      (distinct (map snd (psf_ee s1)) \<longrightarrow>
         (\<forall>golden. ee_radius golden from_psf e0 s1 = (Inr r0, s1))))"
proof (intro conjI impI)
  assume "(r, e) \<in> set (psf_ee s)"
  then show "\<exists>r'. (r', e) \<in> set (psf_ee s) \<and>
             (\<forall>golden. ee_radius golden from_psf e s = (Inr r', s)) \<and>
             (distinct (map snd (psf_ee s)) \<longrightarrow> r' = r)"
    by (rule ee_radius_hit)
next
  assume a: "encircled_energy from_psf (Scalar r0) s0 = (Inr (Float e0), s1)"
  from encircled_energy_scalar_cached[OF a] show mem: "(r0, e0) \<in> set (psf_ee s1)"
    by (rule map_of_SomeD)
  assume "distinct (map snd (psf_ee s1))"
  with ee_radius_hit[OF mem, of from_psf]
  show "\<forall>golden. ee_radius golden from_psf e0 s1 = (Inr r0, s1)" by auto
qed

theorem ee_radius_exact_match_witness:
  "\<exists>s1. encircled_energy (\<lambda>_. Inr example_mtf) (Scalar 0) example_psf = (Inr (Float 0), s1) \<and>
        (0, 0) \<in> set (psf_ee s1) \<and> distinct (map snd (psf_ee s1)) \<and>
        ee_radius (\<lambda>f s. (Inl (ExternalError ''golden''), s)) (\<lambda>_. Inr example_mtf) 0 s1 = (Inr 0, s1)"
proof -
  have c: "psf_consistent example_psf"
    by (simp add: example_psf_def PSF_init_consistent)
  obtain v s1 where r: "encircled_energy (\<lambda>_. Inr example_mtf) (Scalar 0) example_psf
      = (Inr (Float v), s1)"
    using example_returns by blast
  from scalar_zero_radius[OF c r] have v: "v = 0" by simp
  have ee: "psf_ee s1 = [(0, 0)]"
    using r unfolding v
    by (auto simp: encircled_energy_def example_psf_def PSF_init_def build_mtf_def
        meshgrid_def getitem2_def example_mtf_def ee_at_def Let_def
        split: sum.splits option.splits if_splits prod.splits)
  from ee_radius_exact_match[of 0 0 s1 "\<lambda>_. Inr example_mtf" 0 example_psf 0 s1] r v ee
  show ?thesis by auto
qed

lemma encircled_energy_iterable_facts:
  assumes "psf_consistent s"
    and "encircled_energy from_psf (Iterable rs) s = (Inr res, s')"
  shows "\<exists>out. res = Array out \<and> length out = length rs \<and>
           (\<forall>i<length rs.
              map_of (psf_ee s') (rs ! i) = Some (out ! i) \<and>
              encircled_energy from_psf (Scalar (rs ! i)) s' = (Inr (Float (out ! i)), s') \<and>
              (\<exists>m. psf_mtf s' = Some m \<and>
                 encircled_energy_core (mtf_data m) (rs ! i / 1000)
                   (psf_nu_p s') (psf_dnx s') (psf_dny s') = Inr (out ! i))) \<and>
           (\<exists>new. psf_ee s' = psf_ee s @ new) \<and>
           distinct (map fst (psf_ee s')) \<and>
           set (map fst (psf_ee s')) = set (map fst (psf_ee s)) \<union> set rs"
proof -
  obtain s1 out where
    mtf1: "psf_mtf s1 \<noteq> None" and ee1: "psf_ee s1 = psf_ee s" and
    c1: "psf_consistent s1" and
    loop: "ee_loop s1 rs [] = (Inr out, s')" and res: "res = Array out"
    by (rule encircled_energy_Inr[OF assms(2)]) (use assms(1) in auto)
  from ee_loop_values[OF loop] have len: "length out = length rs"
    and vals: "\<forall>i<length rs. map_of (psf_ee s') (rs ! i) = Some (out ! i)" by auto
  from ee_loop_grows[OF loop] obtain new where
    s': "s' = s1\<lparr>psf_ee := psf_ee s1 @ new\<rparr>" and keys: "set (map fst new) \<subseteq> set rs" by blast
  from s' mtf1 have mtf': "psf_mtf s' \<noteq> None" by simp
  from s' ee1 have grow: "psf_ee s' = psf_ee s @ new" by simp
  from ee_loop_consistent[OF c1, of rs "[]"] loop have cs': "psf_consistent s'" by simp
  then have dist: "distinct (map fst (psf_ee s'))" by (simp add: psf_consistent_def)
  have each: "map_of (psf_ee s') (rs ! i) = Some (out ! i) \<and>
              encircled_energy from_psf (Scalar (rs ! i)) s' = (Inr (Float (out ! i)), s') \<and>
              (\<exists>m. psf_mtf s' = Some m \<and>
                 encircled_energy_core (mtf_data m) (rs ! i / 1000)
                   (psf_nu_p s') (psf_dnx s') (psf_dny s') = Inr (out ! i))"
    if i: "i < length rs" for i
  proof -
    from vals i have hit: "map_of (psf_ee s') (rs ! i) = Some (out ! i)" by simp
    from consistent_cached[OF cs' hit] encircled_energy_hit[OF mtf' hit, of from_psf] hit
    show ?thesis by auto
  qed
  have "set rs \<subseteq> set (map fst (psf_ee s'))"
  proof
    fix r assume "r \<in> set rs"
    then obtain i where "i < length rs" "rs ! i = r" by (auto simp: in_set_conv_nth)
    with vals have "map_of (psf_ee s') r = Some (out ! i)" by auto
    then have "(r, out ! i) \<in> set (psf_ee s')" by (rule map_of_SomeD)
    then show "r \<in> set (map fst (psf_ee s'))" by force
  qed
  with grow keys have keyset: "set (map fst (psf_ee s')) = set (map fst (psf_ee s)) \<union> set rs"
    by auto
  from res len each grow dist keyset show ?thesis by blast
qed

lemma encircled_energy_scalar_facts:
  assumes "psf_consistent s"
    and "encircled_energy from_psf (Scalar r) s = (Inr res, s')"
  shows "\<exists>v. res = Float v \<and> map_of (psf_ee s') r = Some v \<and>
           encircled_energy from_psf (Scalar r) s' = (Inr (Float v), s') \<and>
           (s' = s \<or> psf_ee s' = psf_ee s @ [(r, v)])"
proof -
  obtain s1 v where
    mtf1: "psf_mtf s1 \<noteq> None" and ee1: "psf_ee s1 = psf_ee s" and
    prep: "(if psf_mtf s = None then build_mtf from_psf s else (None, s)) = (None, s1)" and
    at: "ee_at s1 r = (Inr v, s')" and res: "res = Float v"
    by (rule encircled_energy_Inr[OF assms(2)]) auto
  from ee_at_Inr[OF at] have hit: "map_of (psf_ee s') r = Some v"
    and alt: "s' = s1 \<or> s' = s1\<lparr>psf_ee := psf_ee s1 @ [(r, v)]\<rparr>" by auto
  from alt mtf1 have mtf': "psf_mtf s' \<noteq> None" by auto
  have "s' = s \<or> psf_ee s' = psf_ee s @ [(r, v)]"
  proof (cases "psf_mtf s = None")
    case True
    with assms(1) have "psf_ee s = []" by (simp add: psf_consistent_def)
    with ee1 at have "map_of (psf_ee s1) r = None" by simp
    with ee_at_Inr[OF at] ee1 show ?thesis by auto
  next
    case False
    with prep have "s1 = s" by simp
    with alt show ?thesis by auto
  qed
  with res hit encircled_energy_hit[OF mtf' hit, of from_psf] show ?thesis by blast
qed

text \<open>
  Claim C6: on a consistent PSF, a call with an iterable of radii that returns, returns an
  array with one value per radius in the order of the input; each value is cached under
  its radius, is the core computation at that radius, and is what a later scalar call for
  the same radius returns, leaving the state untouched; the cache gains entries at its
  end only, its keys stay distinct, and they are the old keys and the radii asked for.
  A scalar call returns a scalar, caches it, and adds at most that one entry.
\<close>

theorem encircled_energy_vector_and_cache:
  assumes "psf_consistent s"
  shows "(encircled_energy from_psf (Iterable rs) s = (Inr res, s') \<longrightarrow>
          (\<exists>out. res = Array out \<and> length out = length rs \<and>
             (\<forall>i<length rs.
                map_of (psf_ee s') (rs ! i) = Some (out ! i) \<and>
                encircled_energy from_psf (Scalar (rs ! i)) s' = (Inr (Float (out ! i)), s') \<and>
                (\<exists>m. psf_mtf s' = Some m \<and>
                   encircled_energy_core (mtf_data m) (rs ! i / 1000)
                     (psf_nu_p s') (psf_dnx s') (psf_dny s') = Inr (out ! i))) \<and>
             (\<exists>new. psf_ee s' = psf_ee s @ new) \<and>
             distinct (map fst (psf_ee s')) \<and>
             set (map fst (psf_ee s')) = set (map fst (psf_ee s)) \<union> set rs)) \<and>
         (encircled_energy from_psf (Scalar r) s = (Inr res1, s1) \<longrightarrow>
          (\<exists>v. res1 = Float v \<and> map_of (psf_ee s1) r = Some v \<and>
             encircled_energy from_psf (Scalar r) s1 = (Inr (Float v), s1) \<and>
             (s1 = s \<or> psf_ee s1 = psf_ee s @ [(r, v)])))"
  using encircled_energy_iterable_facts[OF assms] encircled_energy_scalar_facts[OF assms]
  by blast

lemma encircled_energy_iterable_returns:
  assumes "psf_mtf s = None" "from_psf s = Inr m"
    and "2 \<le> length (mtf_x m)" "2 \<le> length (mtf_y m)"
    and "broadcast_dim (nrows (mtf_data m)) (length (mtf_y m)) \<noteq> None"
    and "broadcast_dim (ncols (mtf_data m)) (length (mtf_x m)) \<noteq> None"
  shows "\<exists>out s'. encircled_energy from_psf (Iterable rs) s = (Inr (Array out), s')"
proof -
  let ?s1 = "s\<lparr>psf_mtf := Some m, psf_nu_p := Some (mtf_nu_p m),
                  psf_dnx := Some (mtf_y m ! 1 - mtf_y m ! 0),
                  psf_dny := Some (mtf_x m ! 1 - mtf_x m ! 0)\<rparr>"
  have b: "build_mtf from_psf s = (None, ?s1)"
    using assms(2-4) by (rule build_mtf_returns)
  have core: "\<exists>v. encircled_energy_core (mtf_data m) (r / 1000) (Some (mtf_nu_p m))
      (Some (mtf_y m ! 1 - mtf_y m ! 0)) (Some (mtf_x m ! 1 - mtf_x m ! 0)) = Inr v" for r
    using core_returns[of "mtf_data m" "mtf_nu_p m" "r / 1000"] assms(5,6)
    by (auto simp: mtf_nu_p_shape)
  have loop: "\<exists>res s'. ee_loop (?s1\<lparr>psf_ee := ee\<rparr>) rs out = (Inr res, s')" for ee out
  proof (induction rs arbitrary: ee out)
    case Nil
    show ?case by simp
  next
    case (Cons r rs)
    from core[of r] obtain v where v: "encircled_energy_core (mtf_data m) (r / 1000)
      (Some (mtf_nu_p m)) (Some (mtf_y m ! 1 - mtf_y m ! 0)) (Some (mtf_x m ! 1 - mtf_x m ! 0)) = Inr v"
      by blast
    show ?case
    proof (cases "map_of ee r")
      case None
      with v have "ee_at (?s1\<lparr>psf_ee := ee\<rparr>) r = (Inr v, ?s1\<lparr>psf_ee := ee @ [(r, v)]\<rparr>)"
        by (simp add: ee_at_def)
      with Cons[of "ee @ [(r, v)]" "out @ [v]"] show ?thesis by simp
    next
      case (Some w)
      then have "ee_at (?s1\<lparr>psf_ee := ee\<rparr>) r = (Inr w, ?s1\<lparr>psf_ee := ee\<rparr>)"
        by (simp add: ee_at_def)
      with Cons[of ee "out @ [w]"] show ?thesis by simp
    qed
  qed
  from loop[of "psf_ee s" "[]"] obtain res s' where "ee_loop ?s1 rs [] = (Inr res, s')"
    by auto
  with b assms(1) have "encircled_energy from_psf (Iterable rs) s = (Inr (Array res), s')"
    by (simp add: encircled_energy_def)
  then show ?thesis by blast
qed

theorem encircled_energy_vector_and_cache_witness:
  "psf_consistent example_psf \<and>
   (\<exists>out s'. encircled_energy (\<lambda>_. Inr example_mtf) (Iterable [3, 0, 3]) example_psf
        = (Inr (Array out), s') \<and>
      length out = 3 \<and> out ! 0 = out ! 2 \<and> out ! 1 = 0 \<and>
      set (map fst (psf_ee s')) = {0, 3} \<and> length (psf_ee s') = 2)"
proof -
  have c: "psf_consistent example_psf"
    by (simp add: example_psf_def PSF_init_consistent)
  have "\<exists>out s'. encircled_energy (\<lambda>_. Inr example_mtf) (Iterable [3, 0, 3]) example_psf
      = (Inr (Array out), s')"
    by (rule encircled_energy_iterable_returns[where m = example_mtf])
       (simp_all add: example_psf_def PSF_init_def example_mtf_def broadcast_dim_def)
  then obtain out s' where
    r: "encircled_energy (\<lambda>_. Inr example_mtf) (Iterable [3, 0, 3]) example_psf
      = (Inr (Array out), s')" by blast
  from encircled_energy_vector_and_cache[OF c, of "\<lambda>_. Inr example_mtf" "[3, 0, 3]"
      "Array out" s' 0 "Float 0" example_psf] r
  have len: "length out = 3"
    and vals: "\<forall>i<3. map_of (psf_ee s') ([3, 0, 3] ! i) = Some (out ! i) \<and>
        (\<exists>m. psf_mtf s' = Some m \<and>
                   encircled_energy_core (mtf_data m) ([3, 0, 3] ! i / 1000)
                     (psf_nu_p s') (psf_dnx s') (psf_dny s') = Inr (out ! i))"
    and dist: "distinct (map fst (psf_ee s'))"
    and keys: "set (map fst (psf_ee s')) = set (map fst (psf_ee example_psf)) \<union> set [3, 0, 3]"
    by auto
  from vals[rule_format, of 0] have v0: "map_of (psf_ee s') 3 = Some (out ! 0)" by simp
  from vals[rule_format, of 2] have v2: "map_of (psf_ee s') 3 = Some (out ! 2)" by simp
  from v0 v2 have same: "out ! 0 = out ! 2" by simp
  from vals[rule_format, of 1] have "\<exists>m. psf_mtf s' = Some m \<and>
                   encircled_energy_core (mtf_data m) 0
                     (psf_nu_p s') (psf_dnx s') (psf_dny s') = Inr (out ! 1)"
    by simp
  then have zero: "out ! 1 = 0"
    by (auto dest: core_zero_radius)
  from keys have k: "set (map fst (psf_ee s')) = {0, 3}"
    by (auto simp: example_psf_def PSF_init_def)
  from distinct_card[OF dist] have "card (set (map fst (psf_ee s'))) = length (psf_ee s')"
    by simp
  with k have "length (psf_ee s') = 2" by simp
  with c r len same zero k show ?thesis by blast
qed

section \<open>Plotting the encircled energy\<close>

lemma plot_int_zero_rejected:
  "plot_encircled_energy from_psf sort_xy (Some (PyInt 0)) npts s
     = (Inl (ValueError ''computing from 0 to 0 is stupid''), s)"
  by (simp add: plot_encircled_energy_def)

lemma plot_empty_cache_rejected:
  assumes "psf_ee s = []"
  shows "plot_encircled_energy from_psf sort_xy None npts s
     = (Inl (ValueError
          ''if no values for encircled energy have been computed, axlim must be provided''), s)"
  using assms by (simp add: plot_encircled_energy_def)

lemma plot_float_zero_computes:
  "plot_encircled_energy from_psf sort_xy (Some (PyFloat 0)) npts s =
     (case linspace (1 / 10 ^ 5) 0 npts of
        Inl e \<Rightarrow> (Inl e, s)
      | Inr xx \<Rightarrow>
          (case encircled_energy from_psf (Iterable xx) s of
             (Inl e, s') \<Rightarrow> (Inl e, s')
           | (Inr yy, s') \<Rightarrow> (Inr (xx, yy), s')))"
  by (simp add: plot_encircled_energy_def)

text \<open>
  Claim C8 against the code: with the float \<open>0.0\<close> as axis limit the identity test
  \<open>axlim is 0\<close> is false, and the call computes and caches fifty encircled energies
  instead of raising.  The int \<open>0\<close> and the empty cache are rejected
  (\<open>plot_int_zero_rejected\<close>, \<open>plot_empty_cache_rejected\<close>).
\<close>

theorem plot_encircled_energy_float_zero:
  "\<exists>xx yy s'.
     plot_encircled_energy (\<lambda>_. Inr example_mtf) sort_xy (Some (PyFloat 0)) 50 example_psf
       = (Inr (xx, Array yy), s') \<and>
     length xx = 50 \<and> length yy = 50 \<and> set (map fst (psf_ee s')) = set xx"
proof -
  obtain xx where xx: "linspace (1 / 10 ^ 5) 0 50 = Inr xx" and len: "length xx = 50"
    by (simp add: linspace_def)
  have c: "psf_consistent example_psf"
    by (simp add: example_psf_def PSF_init_consistent)
  have "\<exists>out s'. encircled_energy (\<lambda>_. Inr example_mtf) (Iterable xx) example_psf
      = (Inr (Array out), s')"
    by (rule encircled_energy_iterable_returns[where m = example_mtf])
       (simp_all add: example_psf_def PSF_init_def example_mtf_def broadcast_dim_def)
  then obtain yy s' where
    r: "encircled_energy (\<lambda>_. Inr example_mtf) (Iterable xx) example_psf = (Inr (Array yy), s')"
    by blast
  from encircled_energy_iterable_facts[OF c r] have
    "length yy = length xx"
    "set (map fst (psf_ee s')) = set (map fst (psf_ee example_psf)) \<union> set xx"
    by auto
  then have f: "length yy = 50" "set (map fst (psf_ee s')) = set xx"
    using len by (simp_all add: example_psf_def PSF_init_def)
  have "plot_encircled_energy (\<lambda>_. Inr example_mtf) sort_xy (Some (PyFloat 0)) 50 example_psf
       = (Inr (xx, Array yy), s')"
    by (simp only: plot_float_zero_computes xx r sum.case prod.case)
  with len f show ?thesis by blast
qed

section \<open>The diffraction-limited encircled energy\<close>

text \<open>
  Claim C5, as stated, fails where \<open>fno\<close> is zero: the quotient
  \<open>points * pi / fno\<close> is a division by zero, not the value 0.
\<close>

theorem analytical_encircled_energy_zero_fno:
  "analytical_encircled_energy 0 (1 / 2) 0 = Inl ZeroDivisionError"
  by (simp add: analytical_encircled_energy_def)

text \<open>
  Claim C5, amended: for every non-zero \<open>fno\<close> and \<open>wavelength\<close> the diffraction-limited
  encircled energy is the closed form \<open>1 - J0(p)^2 - J1(p)^2\<close> with
  \<open>p = points * pi / (fno * wavelength)\<close>; \<open>ee_radius_diffraction\<close> hands the minimiser
  the squared distance of this closed form from the target energy, an objective that is
  zero exactly at the radii whose closed-form energy is the target; and at \<open>points = 0\<close>
  the closed form is exactly 0.
\<close>

theorem analytical_encircled_energy_closed_form:
  assumes "fno \<noteq> 0" and "wavelength \<noteq> 0"
  shows "analytical_encircled_energy fno wavelength points =
           Inr (1 - (special_j0 (points * pi / (fno * wavelength)))\<^sup>2
                  - (special_j1 (points * pi / (fno * wavelength)))\<^sup>2)
       \<and> (psf_fno s = Some fno \<and> psf_wavelength s = Some wavelength \<longrightarrow>
            ee_radius_diffraction golden energy s =
              golden (\<lambda>x. Inr ((1 - (special_j0 (x * pi / (fno * wavelength)))\<^sup>2
                               - (special_j1 (x * pi / (fno * wavelength)))\<^sup>2 - energy)\<^sup>2)))
       \<and> inverse_analytic_encircled_energy golden fno wavelength energy =
           golden (\<lambda>x. Inr ((1 - (special_j0 (x * pi / (fno * wavelength)))\<^sup>2
                               - (special_j1 (x * pi / (fno * wavelength)))\<^sup>2 - energy)\<^sup>2))
       \<and> (analytic_optfcn fno wavelength energy x = Inr 0 \<longleftrightarrow>
            analytical_encircled_energy fno wavelength x = Inr energy)
       \<and> analytical_encircled_energy fno wavelength 0 = Inr 0"
proof -
  have closed: "analytical_encircled_energy fno wavelength y =
           Inr (1 - (special_j0 (y * pi / (fno * wavelength)))\<^sup>2
                  - (special_j1 (y * pi / (fno * wavelength)))\<^sup>2)" for y
    using assms by (simp add: analytical_encircled_energy_def Let_def)
  have obj: "analytic_optfcn fno wavelength energy =
      (\<lambda>x. Inr ((1 - (special_j0 (x * pi / (fno * wavelength)))\<^sup>2
                               - (special_j1 (x * pi / (fno * wavelength)))\<^sup>2 - energy)\<^sup>2))"
    by (rule ext) (simp add: analytic_optfcn_def closed)
  have inv: "inverse_analytic_encircled_energy golden fno wavelength energy =
           golden (\<lambda>x. Inr ((1 - (special_j0 (x * pi / (fno * wavelength)))\<^sup>2
                               - (special_j1 (x * pi / (fno * wavelength)))\<^sup>2 - energy)\<^sup>2))"
    by (simp add: inverse_analytic_encircled_energy_def obj)
  have meth: "ee_radius_diffraction golden energy s =
              golden (\<lambda>x. Inr ((1 - (special_j0 (x * pi / (fno * wavelength)))\<^sup>2
                               - (special_j1 (x * pi / (fno * wavelength)))\<^sup>2 - energy)\<^sup>2))"
    if "psf_fno s = Some fno \<and> psf_wavelength s = Some wavelength"
    using that by (simp add: ee_radius_diffraction_def inv)
  have root: "analytic_optfcn fno wavelength energy x = Inr 0 \<longleftrightarrow>
            analytical_encircled_energy fno wavelength x = Inr energy"
    by (simp add: analytic_optfcn_def closed)
  have zero: "analytical_encircled_energy fno wavelength 0 = Inr 0"
    by (simp add: closed special_j0_zero special_j1_zero)
  from closed meth inv root zero show ?thesis by blast
qed

theorem analytical_encircled_energy_closed_form_witness:
  "(2::real) \<noteq> 0 \<and> (1 / 2::real) \<noteq> 0 \<and>
   psf_fno (example_psf\<lparr>psf_fno := Some 2, psf_wavelength := Some (1 / 2)\<rparr>) = Some 2 \<and>
   psf_wavelength (example_psf\<lparr>psf_fno := Some 2, psf_wavelength := Some (1 / 2)\<rparr>) = Some (1 / 2) \<and>
   analytical_encircled_energy 2 (1 / 2) 0 = Inr 0 \<and>
   ee_radius_diffraction (\<lambda>f. f 0) 0
     (example_psf\<lparr>psf_fno := Some 2, psf_wavelength := Some (1 / 2)\<rparr>) = Inr 0 \<and>
   inverse_analytic_encircled_energy (\<lambda>f. f 0) 2 (1 / 2) 0 = Inr 0"
  using analytical_encircled_energy_closed_form
    [of 2 "1 / 2" 0 "example_psf\<lparr>psf_fno := Some 2, psf_wavelength := Some (1 / 2)\<rparr>"
        "\<lambda>f. f 0" 0 0]
  by (simp add: special_j0_zero special_j1_zero)

section \<open>Tracing the focus\<close>

lemma argmax_from_spec:
  assumes "length ps = i" "bi < i" "ps ! bi = bv"
    and "\<forall>j<i. ps ! j \<le> bv" "\<forall>j<bi. ps ! j < bv"
  shows "argmax_from bi bv i xs < length (ps @ xs) \<and>
         (\<forall>j<length (ps @ xs). (ps @ xs) ! j \<le> (ps @ xs) ! argmax_from bi bv i xs) \<and>
         (\<forall>j<argmax_from bi bv i xs. (ps @ xs) ! j < (ps @ xs) ! argmax_from bi bv i xs)"
  using assms
proof (induction xs arbitrary: ps bi bv i)
  case Nil
  then show ?case by simp
next
  case (Cons x xs)
  show ?case
  proof (cases "bv < x")
    case True
    have "argmax_from i x (Suc i) xs < length ((ps @ [x]) @ xs) \<and>
         (\<forall>j<length ((ps @ [x]) @ xs). ((ps @ [x]) @ xs) ! j \<le> ((ps @ [x]) @ xs) ! argmax_from i x (Suc i) xs) \<and>
         (\<forall>j<argmax_from i x (Suc i) xs. ((ps @ [x]) @ xs) ! j < ((ps @ [x]) @ xs) ! argmax_from i x (Suc i) xs)"
    proof (rule Cons.IH)
      show "length (ps @ [x]) = Suc i" using Cons.prems(1) by simp
      show "i < Suc i" by simp
      show "(ps @ [x]) ! i = x" using Cons.prems(1) by (auto simp: nth_append)
      show "\<forall>j<Suc i. (ps @ [x]) ! j \<le> x"
        using Cons.prems(1,4) True by (fastforce simp: nth_append less_Suc_eq)
      show "\<forall>j<i. (ps @ [x]) ! j < x"
        using Cons.prems(1,4) True by (fastforce simp: nth_append)
    qed
    with True show ?thesis by simp
  next
    case False
    have "argmax_from bi bv (Suc i) xs < length ((ps @ [x]) @ xs) \<and>
         (\<forall>j<length ((ps @ [x]) @ xs). ((ps @ [x]) @ xs) ! j \<le> ((ps @ [x]) @ xs) ! argmax_from bi bv (Suc i) xs) \<and>
         (\<forall>j<argmax_from bi bv (Suc i) xs. ((ps @ [x]) @ xs) ! j < ((ps @ [x]) @ xs) ! argmax_from bi bv (Suc i) xs)"
    proof (rule Cons.IH)
      show "length (ps @ [x]) = Suc i" using Cons.prems(1) by simp
      show "bi < Suc i" using Cons.prems(2) by simp
      show "(ps @ [x]) ! bi = bv" using Cons.prems(1,2,3) by (simp add: nth_append)
      show "\<forall>j<Suc i. (ps @ [x]) ! j \<le> bv"
        using Cons.prems(1,4) False by (auto simp: nth_append less_Suc_eq)
      show "\<forall>j<bi. (ps @ [x]) ! j < bv"
        using Cons.prems(1,2,5) by (auto simp: nth_append)
    qed
    with False show ?thesis by simp
  qed
qed

lemma argmax_list_spec:
  assumes "xs \<noteq> []"
  shows "argmax_list xs < length xs \<and>
         (\<forall>j<length xs. xs ! j \<le> xs ! argmax_list xs) \<and>
         (\<forall>j<argmax_list xs. xs ! j < xs ! argmax_list xs)"
proof -
  from assms obtain x rest where xs: "xs = x # rest" by (cases xs) auto
  have "argmax_from 0 x 1 rest < length ([x] @ rest) \<and>
         (\<forall>j<length ([x] @ rest). ([x] @ rest) ! j \<le> ([x] @ rest) ! argmax_from 0 x 1 rest) \<and>
         (\<forall>j<argmax_from 0 x 1 rest. ([x] @ rest) ! j < ([x] @ rest) ! argmax_from 0 x 1 rest)"
    by (rule argmax_from_spec) simp_all
  then show ?thesis by (simp add: xs argmax_list_def)
qed

lemma argmax_first_peak:
  assumes "0 < dim0 d"
  shows "first_peak d i q (argmax_list (map (\<lambda>k. at3 d k i q) [0..<dim0 d]))"
proof -
  let ?xs = "map (\<lambda>k. at3 d k i q) [0..<dim0 d]"
  from assms have "?xs \<noteq> []" by simp
  from argmax_list_spec[OF this] show ?thesis
    by (auto simp: first_peak_def)
qed

lemma first_peak_unique: "first_peak d i q k \<Longrightarrow> first_peak d i q k' \<Longrightarrow> k = k'"
  unfolding first_peak_def
  by (metis linorder_neqE_nat not_less)

lemma focus_loop_map:
  assumes "\<And>x. x \<in> set xs \<Longrightarrow> focus_at focus (f x) = Inr (g x)"
  shows "focus_loop focus (map f xs) = Inr (map g xs)"
  using assms by (induction xs) simp_all

lemma focus_at_lerp:
  assumes "0 \<le> ix" "\<lceil>ix\<rceil> < int (length focus)"
  shows "focus_at focus (Some ix) =
           Inr (focus ! nat \<lfloor>ix\<rfloor> + (focus ! nat \<lceil>ix\<rceil> - focus ! nat \<lfloor>ix\<rfloor>) * frac ix)"
proof -
  have f0: "0 \<le> \<lfloor>ix\<rfloor>" using assms(1) by simp
  have fc: "\<lfloor>ix\<rfloor> \<le> \<lceil>ix\<rceil>" by (rule floor_le_ceiling)
  with assms(2) have f1: "\<lfloor>ix\<rfloor> < int (length focus)" by linarith
  from f0 fc have c0: "0 \<le> \<lceil>ix\<rceil>" by linarith
  from f0 f1 c0 assms(2) show ?thesis
    by (simp add: focus_at_def getitem_def Let_def)
qed

lemma mean_row_upt:
  assumes "lo < n"
  shows "mean_row (map f [lo..<n]) = Some ((\<Sum>q = lo..<n. real (f q)) / real (n - lo))"
  using assms by (simp add: mean_row_def interv_sum_list_conv_sum_set_nat)

lemma mean_bounds:
  assumes "lo < n" "\<And>q. q < n \<Longrightarrow> f q < (m::nat)"
  shows "0 \<le> (\<Sum>q = lo..<n. real (f q)) / real (n - lo)"
    and "\<lceil>(\<Sum>q = lo..<n. real (f q)) / real (n - lo)\<rceil> < int m"
proof -
  show "0 \<le> (\<Sum>q = lo..<n. real (f q)) / real (n - lo)"
    by (simp add: sum_nonneg)
  have m: "0 < m" using assms by (metis gr_zeroI not_less_zero)
  have "(\<Sum>q = lo..<n. real (f q)) \<le> real (card {lo..<n}) * real (m - 1)"
  proof (rule sum_bounded_above)
    fix q assume "q \<in> {lo..<n}"
    then have "f q < m" using assms(2) by simp
    then show "real (f q) \<le> real (m - 1)" by simp
  qed
  then have "(\<Sum>q = lo..<n. real (f q)) / real (n - lo) \<le> real (m - 1)"
    using assms(1) by (simp add: pos_divide_le_eq mult.commute)
  then have "\<lceil>(\<Sum>q = lo..<n. real (f q)) / real (n - lo)\<rceil> \<le> int (m - 1)"
    by (simp add: ceiling_le_iff)
  with m show "\<lceil>(\<Sum>q = lo..<n. real (f q)) / real (n - lo)\<rceil> < int m" by linarith
qed

lemma trace_focus_avg_value:
  assumes freq: "cube_freq c \<noteq> []"
    and d0: "0 < dim0 (cube_data c)" and foc: "dim0 (cube_data c) \<le> length (cube_focus c)"
    and lo: "lo = (if hd (cube_freq c) = 0 then 1 else 0)" "lo < dim2 (cube_data c)"
  shows "trace_focus_avg c =
     Inr (map (\<lambda>i.
            let ix = (\<Sum>q = lo..<dim2 (cube_data c).
                       real (argmax_list (map (\<lambda>k. at3 (cube_data c) k i q) [0..<dim0 (cube_data c)])))
                     / real (dim2 (cube_data c) - lo)
            in cube_focus c ! nat \<lfloor>ix\<rfloor>
               + (cube_focus c ! nat \<lceil>ix\<rceil> - cube_focus c ! nat \<lfloor>ix\<rfloor>) * frac ix)
          [0..<dim1 (cube_data c)],
          cube_field c)"
proof -
  let ?d = "cube_data c"
  let ?pk = "\<lambda>i q. argmax_list (map (\<lambda>k. at3 ?d k i q) [0..<dim0 ?d])"
  let ?ix = "\<lambda>i. (\<Sum>q = lo..<dim2 ?d. real (?pk i q)) / real (dim2 ?d - lo)"
  let ?g = "\<lambda>i. cube_focus c ! nat \<lfloor>?ix i\<rfloor>
               + (cube_focus c ! nat \<lceil>?ix i\<rceil> - cube_focus c ! nat \<lfloor>?ix i\<rfloor>) * frac (?ix i)"
  from freq obtain f0 rest where fr: "cube_freq c = f0 # rest" by (cases "cube_freq c") auto
  have am: "argmax_axis0 ?d = Inr (map (\<lambda>i. map (?pk i) [0..<dim2 ?d]) [0..<dim1 ?d])"
    using d0 by (simp add: argmax_axis0_def)
  have rows: "(if f0 = 0 then map (\<lambda>row. mean_row (drop 1 row))
                               (map (\<lambda>i. map (?pk i) [0..<dim2 ?d]) [0..<dim1 ?d])
               else map mean_row (map (\<lambda>i. map (?pk i) [0..<dim2 ?d]) [0..<dim1 ?d]))
            = map (\<lambda>i. Some (?ix i)) [0..<dim1 ?d]"
  proof (cases "f0 = 0")
    case True
    with lo fr have l1: "lo = 1" by simp
    have "drop 1 (map (?pk i) [0..<dim2 ?d]) = map (?pk i) [lo..<dim2 ?d]" for i
      by (simp add: drop_map l1)
    with True mean_row_upt[OF lo(2)] show ?thesis by (simp add: comp_def)
  next
    case False
    with lo fr have l0: "lo = 0" by simp
    with False mean_row_upt[OF lo(2)] show ?thesis by (simp add: comp_def)
  qed
  have pk: "?pk i q < dim0 ?d" for i q
    using argmax_first_peak[OF d0, of i q] by (simp add: first_peak_def)
  have each: "focus_at (cube_focus c) (Some (?ix i)) = Inr (?g i)" for i
  proof (rule focus_at_lerp)
    show "0 \<le> ?ix i" by (rule mean_bounds(1)[OF lo(2)]) (rule pk)
    have "\<lceil>?ix i\<rceil> < int (dim0 ?d)" by (rule mean_bounds(2)[OF lo(2)]) (rule pk)
    with foc show "\<lceil>?ix i\<rceil> < int (length (cube_focus c))" by linarith
  qed
  have loop: "focus_loop (cube_focus c) (map (\<lambda>i. Some (?ix i)) [0..<dim1 ?d])
      = Inr (map ?g [0..<dim1 ?d])"
    by (rule focus_loop_map) (rule each)
  show ?thesis
    unfolding trace_focus_avg_def fr am Let_def
    by (simp only: list.case sum.case rows loop)
qed

text \<open>
  Claim C2, as stated, fails on a cube that holds the zero frequency alone: its MTF peaks
  at focus index 1 for its one field and frequency, but the excluded channel leaves
  nothing to average, the mean is NaN and \<open>floor\<close> raises.
\<close>

theorem trace_focus_dc_only:
  "first_peak (cube_data dc_cube) 0 0 1 \<and>
   trace_focus dc_cube ''avg'' = Inl (ValueError ''cannot convert float NaN to integer'')"
  by (simp add: first_peak_def trace_focus_def lower_def lower_char_def trace_focus_avg_def
      dc_cube_def argmax_axis0_def argmax_list_def mean_row_def focus_at_def Let_def)

text \<open>
  Claim C2, amended: for the algorithm names \<open>avg\<close> and \<open>average\<close>, on a cube with a
  non-empty focus dimension covered by the focus axis and with at least one frequency
  channel left once the channel at index 0 is excluded when \<open>freq[0] == 0\<close>,
  \<open>trace_focus\<close> returns one value per field index and the field axis; the value is
  \<open>focus[floor(idx)] + (focus[ceil(idx)] - focus[floor(idx)]) * (idx mod 1)\<close> for the
  mean \<open>idx\<close>, over the channels kept, of the focus indices of the maximum MTF; and when
  the MTF peaks at one focus index \<open>k\<close> for every field and frequency, every value is
  \<open>focus[k]\<close>.
\<close>

theorem trace_focus_average:
  assumes alg: "algorithm = ''avg'' \<or> algorithm = ''average''"
    and freq: "cube_freq c \<noteq> []"
    and d0: "0 < dim0 (cube_data c)" and foc: "dim0 (cube_data c) \<le> length (cube_focus c)"
    and lo: "lo = (if hd (cube_freq c) = 0 then 1 else 0)" "lo < dim2 (cube_data c)"
  shows "\<exists>out pk.
           trace_focus c algorithm = Inr (out, cube_field c) \<and>
           length out = dim1 (cube_data c) \<and>
           (\<forall>i<dim1 (cube_data c). \<forall>q<dim2 (cube_data c). first_peak (cube_data c) i q (pk i q)) \<and>
           (\<forall>i<dim1 (cube_data c).
              let ix = (\<Sum>q = lo..<dim2 (cube_data c). real (pk i q)) / real (dim2 (cube_data c) - lo)
              in out ! i = cube_focus c ! nat \<lfloor>ix\<rfloor>
                   + (cube_focus c ! nat \<lceil>ix\<rceil> - cube_focus c ! nat \<lfloor>ix\<rfloor>) * frac ix) \<and>
           (\<forall>k. (\<forall>i<dim1 (cube_data c). \<forall>q<dim2 (cube_data c). first_peak (cube_data c) i q k) \<longrightarrow>
                out = replicate (dim1 (cube_data c)) (cube_focus c ! k))"
proof -
  let ?d = "cube_data c"
  let ?pk = "\<lambda>i q. argmax_list (map (\<lambda>k. at3 ?d k i q) [0..<dim0 ?d])"
  let ?ix = "\<lambda>i. (\<Sum>q = lo..<dim2 ?d. real (?pk i q)) / real (dim2 ?d - lo)"
  let ?g = "\<lambda>i. cube_focus c ! nat \<lfloor>?ix i\<rfloor>
               + (cube_focus c ! nat \<lceil>?ix i\<rceil> - cube_focus c ! nat \<lfloor>?ix i\<rfloor>) * frac (?ix i)"
  let ?out = "map ?g [0..<dim1 ?d]"
  from alg have "trace_focus c algorithm = trace_focus_avg c"
    by (auto simp: trace_focus_def lower_def lower_char_def)
  with trace_focus_avg_value[OF freq d0 foc lo]
  have ret: "trace_focus c algorithm = Inr (?out, cube_field c)" by (simp add: Let_def)
  have len: "length ?out = dim1 ?d" by simp
  have peaks: "\<forall>i<dim1 ?d. \<forall>q<dim2 ?d. first_peak ?d i q (?pk i q)"
    using argmax_first_peak[OF d0] by simp
  have vals: "\<forall>i<dim1 ?d. let ix = ?ix i in
      ?out ! i = cube_focus c ! nat \<lfloor>ix\<rfloor>
                   + (cube_focus c ! nat \<lceil>ix\<rceil> - cube_focus c ! nat \<lfloor>ix\<rfloor>) * frac ix"
    by (simp add: Let_def)
  have flat: "?out = replicate (dim1 ?d) (cube_focus c ! k)"
    if all: "\<forall>i<dim1 ?d. \<forall>q<dim2 ?d. first_peak ?d i q k" for k
  proof -
    have "?g i = cube_focus c ! k" if i: "i < dim1 ?d" for i
    proof -
      have "?pk i q = k" if "q < dim2 ?d" for q
        using all i that argmax_first_peak[OF d0, of i q] first_peak_unique by blast
      then have "(\<Sum>q = lo..<dim2 ?d. real (?pk i q)) = (\<Sum>q = lo..<dim2 ?d. real k)"
        by (intro sum.cong refl) simp
      then have "?ix i = real k" using lo(2) by (simp add: of_nat_diff)
      then show ?thesis by simp
    qed
    then show ?thesis
      by (intro nth_equalityI) simp_all
  qed
  show ?thesis
  proof (intro exI conjI)
    show "trace_focus c algorithm = Inr (?out, cube_field c)" by (rule ret)
    show "length ?out = dim1 ?d" by (rule len)
    show "\<forall>i<dim1 ?d. \<forall>q<dim2 ?d. first_peak ?d i q (?pk i q)" by (rule peaks)
    show "\<forall>i<dim1 ?d. let ix = ?ix i in
      ?out ! i = cube_focus c ! nat \<lfloor>ix\<rfloor>
                   + (cube_focus c ! nat \<lceil>ix\<rceil> - cube_focus c ! nat \<lfloor>ix\<rfloor>) * frac ix"
      by (rule vals)
    show "\<forall>k. (\<forall>i<dim1 ?d. \<forall>q<dim2 ?d. first_peak ?d i q k) \<longrightarrow>
                ?out = replicate (dim1 ?d) (cube_focus c ! k)"
      using flat by blast
  qed
qed

theorem trace_focus_average_witness:
  "(''avg'' = ''avg'' \<or> ''avg'' = ''average'') \<and> cube_freq tilted_cube \<noteq> [] \<and>
   0 < dim0 (cube_data tilted_cube) \<and>
   dim0 (cube_data tilted_cube) \<le> length (cube_focus tilted_cube) \<and>
   (0::nat) = (if hd (cube_freq tilted_cube) = 0 then 1 else 0) \<and>
   0 < dim2 (cube_data tilted_cube) \<and>
   (\<exists>out. trace_focus tilted_cube ''avg'' = Inr (out, [0, 1]) \<and> length out = 2) \<and>
   trace_focus tilted_cube ''avg'' = Inr ([- 5 / 2, - 5 / 2], [0, 1])"
proof -
  have h: "''avg'' = ''avg'' \<or> ''avg'' = ''average''" "cube_freq tilted_cube \<noteq> []"
    "0 < dim0 (cube_data tilted_cube)"
    "dim0 (cube_data tilted_cube) \<le> length (cube_focus tilted_cube)"
    "(0::nat) = (if hd (cube_freq tilted_cube) = 0 then 1 else 0)"
    "0 < dim2 (cube_data tilted_cube)"
    by (simp_all add: tilted_cube_def)
  from trace_focus_average[OF h] obtain out where
    "trace_focus tilted_cube ''avg'' = Inr (out, cube_field tilted_cube)"
    "length out = dim1 (cube_data tilted_cube)" by blast
  then have ex: "\<exists>out. trace_focus tilted_cube ''avg'' = Inr (out, [0, 1]) \<and> length out = 2"
    by (simp add: tilted_cube_def)
  have ev: "trace_focus tilted_cube ''avg'' = Inr ([- 5 / 2, - 5 / 2], [0, 1])"
    by (simp add: trace_focus_def lower_def lower_char_def trace_focus_avg_def tilted_cube_def
      argmax_axis0_def argmax_list_def mean_row_def focus_at_def getitem_def upt_rec Let_def frac_def)
  from h ex ev show ?thesis by blast
qed

lemma trace_focus_half_fails: "\<exists>e. trace_focus c ''0.5'' = Inl e"
  by (auto simp add: trace_focus_def trace_focus_half_def ndarray1_argmin_def Let_def
      split: sum.splits)

text \<open>
  Claim C3 against the code: the branch \<open>'0.5'\<close> asks a one-dimensional array for
  \<open>argmin(axis=1)\<close> and raises on every cube (lemma \<open>trace_focus_half_fails\<close>); here on
  the cube that peaks at focus index 2.
\<close>

theorem trace_focus_half_axis_error:
  "trace_focus flat_cube ''0.5'' = Inl AxisError"
  by (simp add: trace_focus_def trace_focus_half_def flat_cube_def searchsorted_def
      max_axis0_at_def ndarray1_argmin_def Let_def)

text \<open>
  Claim C7, as stated, fails for the name \<open>AVG\<close>: it is outside the three names, yet
  the test lower-cases it and the average algorithm runs.
\<close>

theorem trace_focus_upper_case:
  "''AVG'' \<notin> {''0.5'', ''avg'', ''average''} \<and>
   trace_focus flat_cube ''AVG'' = Inr ([0, 0], [0, 1])"
  by (simp add: trace_focus_def lower_def lower_char_def trace_focus_avg_def flat_cube_def
      argmax_axis0_def argmax_list_def mean_row_def focus_at_def getitem_def upt_rec Let_def)

text \<open>
  Claim C7, amended: every algorithm name other than \<open>'0.5'\<close> whose lower-case form is
  neither \<open>avg\<close> nor \<open>average\<close> raises the \<open>ValueError\<close> whose message says that only
  0.5 is supported, on every cube, and nothing else is returned.
\<close>

theorem trace_focus_unsupported:
  assumes "algorithm \<noteq> ''0.5''" and "lower algorithm \<notin> {''avg'', ''average''}"
  shows "trace_focus c algorithm = Inl (ValueError ''0.5 is only algorithm supported'')"
  using assms by (simp add: trace_focus_def)

theorem trace_focus_unsupported_witness:
  "''bogus'' \<noteq> ''0.5'' \<and> lower ''bogus'' \<notin> {''avg'', ''average''} \<and>
   trace_focus flat_cube ''bogus'' = Inl (ValueError ''0.5 is only algorithm supported'')"
  using trace_focus_unsupported [of "''bogus''" flat_cube]
  by (simp add: lower_def lower_char_def)

section \<open>The full-field display\<close>

text \<open>
  Claim C9 against the code: for a request other than \<open>('tan', 'sag')\<close> the gridded data
  is dropped and the attempt to raise \<open>NotImplemented(...)\<close> is a \<open>TypeError\<close>, not a
  not-implemented error.
\<close>

theorem from_trioptics_files_other_ret:
  "from_trioptics_files (\<lambda>paths azimuths upsample. Inr g) ps az up [''sag'', ''tan'']
     = Inl (TypeError ''NotImplementedType object is not callable'')"
  by (simp add: from_trioptics_files_def call_NotImplemented_def)

lemma from_trioptics_files_tan_sag:
  assumes "gridded ps az up = Inr g" "grid_farr g = f0 # rest"
  shows "from_trioptics_files gridded ps az up [''tan'', ''sag''] =
     Inr (\<lparr>ffd_data = grid_tan g, ffd_field_x = grid_out_x g,
            ffd_field_y = grid_out_y g, ffd_freq = f0\<rparr>,
          \<lparr>ffd_data = grid_sag g, ffd_field_x = grid_out_x g,
            ffd_field_y = grid_out_y g, ffd_freq = f0\<rparr>)"
  using assms by (simp add: from_trioptics_files_def)

lemma from_trioptics_files_never_NotImplementedError:
  assumes "ret \<noteq> [''tan'', ''sag'']" "gridded ps az up = Inr g"
  shows "from_trioptics_files gridded ps az up ret
     = Inl (TypeError ''NotImplementedType object is not callable'')"
  using assms by (simp add: from_trioptics_files_def call_NotImplemented_def)

end
